theory Spec2Isabelle
  imports Complex_Main "HOL-Library.Sublist" "HOL-Library.Multiset" "HOL-Library.Log_Nat"
begin

section \<open>Errors\<close>

text \<open>
  The exceptions the Python source can raise. \<open>RuntimeError\<close> carries the message the
  source builds; \<open>LibraryError\<close> stands for whatever an external collaborator (the
  operating system, torch, safetensors) raises and the source lets through.
\<close>

datatype error =
    AttributeError
  | KeyError string
  | ZeroDivisionError
  | OverflowError
  | RuntimeError string
  | LibraryError string

section \<open>Alias resolution: \<open>get_shared_weights\<close> and the pop loop of \<open>convert_file\<close>\<close>

text \<open>
  A Python dict keeps insertion order and has unique keys: it is an association list
  whose keys are distinct. \<open>tmp_append tmp p k\<close> is \<^verbatim>\<open>tmp[p].append(k)\<close> on a
  \<^verbatim>\<open>defaultdict(list)\<close>: an existing key keeps its place, a new key goes last.
\<close>

fun tmp_append :: "('p \<times> string list) list \<Rightarrow> 'p \<Rightarrow> string \<Rightarrow> ('p \<times> string list) list" where
  "tmp_append [] p k = [(p, [k])]"
| "tmp_append ((q, names) # rest) p k =
     (if q = p then (q, names @ [k]) # rest else (q, names) # tmp_append rest p k)"

definition build_tmp :: "('t \<Rightarrow> 'p) \<Rightarrow> (string \<times> 't) list \<Rightarrow> ('p \<times> string list) list" where
  "build_tmp dp tensors = foldl (\<lambda>tmp (k, v). tmp_append tmp (dp v) k) [] tensors"

text \<open>
  \<^verbatim>\<open>return [names for names in tmp.values() if len(names) > 1]\<close>; the first argument is
  the library's \<^verbatim>\<open>Tensor.data_ptr\<close>.
\<close>

definition get_shared_weights :: "('t \<Rightarrow> 'p) \<Rightarrow> (string \<times> 't) list \<Rightarrow> string list list" where
  "get_shared_weights dp tensors =
     filter (\<lambda>names. length names > 1) (map snd (build_tmp dp tensors))"

text \<open>\<^verbatim>\<open>loaded.pop(name)\<close>: raises \<^verbatim>\<open>KeyError\<close> when the key is absent.\<close>

definition dict_pop :: "(string \<times> 'v) list \<Rightarrow> string \<Rightarrow> error + (string \<times> 'v) list" where
  "dict_pop d name =
     (if name \<in> set (map fst d) then Inr (filter (\<lambda>(k, v). k \<noteq> name) d)
      else Inl (KeyError name))"

text \<open>\<^verbatim>\<open>for name in shared_weights[1:]: loaded.pop(name)\<close>, given the slice.\<close>

fun pop_names :: "(string \<times> 'v) list \<Rightarrow> string list \<Rightarrow> error + (string \<times> 'v) list" where
  "pop_names d [] = Inr d"
| "pop_names d (name # names) =
     (case dict_pop d name of Inl e \<Rightarrow> Inl e | Inr d' \<Rightarrow> pop_names d' names)"

text \<open>\<^verbatim>\<open>for shared_weights in shared_: ...\<close>; \<^verbatim>\<open>xs[1:]\<close> is \<open>tl xs\<close>, also on \<open>[]\<close>.\<close>

fun pop_shared :: "(string \<times> 'v) list \<Rightarrow> string list list \<Rightarrow> error + (string \<times> 'v) list" where
  "pop_shared d [] = Inr d"
| "pop_shared d (shared_weights # rest) =
     (case pop_names d (tl shared_weights) of Inl e \<Rightarrow> Inl e | Inr d' \<Rightarrow> pop_shared d' rest)"

text \<open>Lines 56 to 62 of \<open>convert_file\<close>: the Alias Resolver as a whole.\<close>

definition resolve_aliases :: "('t \<Rightarrow> 'p) \<Rightarrow> (string \<times> 't) list \<Rightarrow> error + (string \<times> 't) list" where
  "resolve_aliases dp loaded = pop_shared loaded (get_shared_weights dp loaded)"

text \<open>
  The names that share buffer identity \<open>p\<close>, in insertion order: the alias group of \<open>p\<close>.
\<close>

definition alias_group :: "('t \<Rightarrow> 'p) \<Rightarrow> (string \<times> 't) list \<Rightarrow> 'p \<Rightarrow> string list" where
  "alias_group dp loaded p = map fst (filter (\<lambda>(k, v). dp v = p) loaded)"

section \<open>Strings and paths of the Python standard library\<close>

text \<open>
  \<^verbatim>\<open>str.strip()\<close>, \<^verbatim>\<open>str.endswith\<close>, \<^verbatim>\<open>str(int)\<close> and the functions of
  \<^verbatim>\<open>posixpath\<close> the source calls. They are pure functions of their string
  arguments, written after CPython's own definitions. A string is a list of code points
  below 256 (the characters of HOL); \<^verbatim>\<open>str.isspace\<close> holds for these of them.
\<close>

definition py_isspace :: "char \<Rightarrow> bool" where
  "py_isspace c \<longleftrightarrow>
     c \<in> set [CHR 0x09, CHR 0x0A, CHR 0x0B, CHR 0x0C, CHR 0x0D,
              CHR 0x1C, CHR 0x1D, CHR 0x1E, CHR 0x1F, CHR 0x20, CHR 0x85, CHR 0xA0]"

definition str_strip :: "string \<Rightarrow> string" where
  "str_strip s = rev (dropWhile py_isspace (rev (dropWhile py_isspace s)))"

definition str_endswith :: "string \<Rightarrow> string \<Rightarrow> bool" where
  "str_endswith s suf \<longleftrightarrow> suffix suf s"

fun str_nat :: "nat \<Rightarrow> string" where
  "str_nat n =
     (if n < 10 then [char_of (48 + n)] else str_nat (n div 10) @ [char_of (48 + n mod 10)])"

declare str_nat.simps [simp del]

definition str_int :: "int \<Rightarrow> string" where
  "str_int i = (if i < 0 then CHR ''-'' # str_nat (nat (- i)) else str_nat (nat i))"

text \<open>\<^verbatim>\<open>s.split('/')\<close>: always at least one component, empty ones kept.\<close>

fun split_slash :: "string \<Rightarrow> string list" where
  "split_slash [] = [[]]"
| "split_slash (c # cs) =
     (if c = CHR ''/'' then [] # split_slash cs
      else (case split_slash cs of [] \<Rightarrow> [[c]] | w # ws \<Rightarrow> (c # w) # ws))"

fun join_slash :: "string list \<Rightarrow> string" where
  "join_slash [] = []"
| "join_slash [w] = w"
| "join_slash (w # ws) = w @ CHR ''/'' # join_slash ws"

text \<open>\<^verbatim>\<open>posixpath.join(a, b)\<close> with one component \<open>b\<close>.\<close>

definition os_path_join :: "string \<Rightarrow> string \<Rightarrow> string" where
  "os_path_join a b =
     (if take 1 b = ''/'' then b
      else if a = [] \<or> last a = CHR ''/'' then a @ b
      else a @ ''/'' @ b)"

text \<open>\<^verbatim>\<open>i = p.rfind('/') + 1; return p[i:]\<close>\<close>

definition os_path_basename :: "string \<Rightarrow> string" where
  "os_path_basename p = rev (takeWhile (\<lambda>c. c \<noteq> CHR ''/'') (rev p))"

text \<open>
  \<^verbatim>\<open>head = p[:i]; if head and head != '/'*len(head): head = head.rstrip('/')\<close>
\<close>

definition os_path_dirname :: "string \<Rightarrow> string" where
  "os_path_dirname p =
     (let head = rev (dropWhile (\<lambda>c. c \<noteq> CHR ''/'') (rev p))
      in if head \<noteq> [] \<and> \<not> list_all (\<lambda>c. c = CHR ''/'') head
         then rev (dropWhile (\<lambda>c. c = CHR ''/'') (rev head)) else head)"

text \<open>
  The component loop of \<^verbatim>\<open>posixpath.normpath\<close>; \<open>i\<close> is \<^verbatim>\<open>initial_slashes\<close>,
  \<open>new\<close> is \<^verbatim>\<open>new_comps\<close>, \<open>part\<close> is \<^verbatim>\<open>comp\<close>.
\<close>

fun norm_comps :: "nat \<Rightarrow> string list \<Rightarrow> string list \<Rightarrow> string list" where
  "norm_comps i new [] = new"
| "norm_comps i new (part # parts) =
     (if part = [] \<or> part = ''.'' then norm_comps i new parts
      else if part \<noteq> ''..'' \<or> (i = 0 \<and> new = []) \<or> (new \<noteq> [] \<and> last new = ''..'')
        then norm_comps i (new @ [part]) parts
      else if new \<noteq> [] then norm_comps i (butlast new) parts
      else norm_comps i new parts)"

definition os_path_normpath :: "string \<Rightarrow> string" where
  "os_path_normpath path =
     (if path = [] then ''.''
      else
        let i = (if take 1 path = ''/'' then
                   (if take 2 path = ''//'' \<and> take 3 path \<noteq> ''///'' then 2 else 1)
                 else 0 :: nat);
            p = replicate i (CHR ''/'') @ join_slash (norm_comps i [] (split_slash path))
        in if p = [] then ''.'' else p)"

section \<open>Python's division of integers and its floats\<close>

text \<open>
  A Python float is a binary64 number, here the rational it denotes (the check below
  meets neither an infinity nor a NaN). \<open>round_binary64\<close> is rounding to the nearest
  binary64 number, ties to the even significand: 53 significant bits in the binade of the
  argument, and steps of \<open>2 ^ -1074\<close> below \<open>2 ^ -1022\<close>.
\<close>

definition round_half_even :: "rat \<Rightarrow> int" where
  "round_half_even x =
     (let f = \<lfloor>x\<rfloor>; r = x - of_int f
      in if r < 1 / 2 then f else if 1 / 2 < r then f + 1 else if even f then f else f + 1)"

text \<open>For \<open>0 < x\<close>, the exponent \<open>e\<close> with \<open>2 ^ e \<le> x < 2 ^ (e + 1)\<close>.\<close>

definition binade :: "rat \<Rightarrow> int" where
  "binade x = (if 1 \<le> x then bitlen \<lfloor>x\<rfloor> - 1 else - bitlen (\<lceil>1 / x\<rceil> - 1))"

definition round_positive :: "rat \<Rightarrow> rat" where
  "round_positive x =
     (let e = max (binade x) (- 1022); ulp = 2 powi (e - 52)
      in of_int (round_half_even (x / ulp)) * ulp)"

definition round_binary64 :: "rat \<Rightarrow> rat" where
  "round_binary64 x =
     (if x = 0 then 0 else if x < 0 then - round_positive (- x) else round_positive x)"

text \<open>The literal \<^verbatim>\<open>0.01\<close>: the binary64 number nearest to 1/100.\<close>

definition float_0_01 :: rat where
  "float_0_01 = round_binary64 (1 / 100)"

text \<open>
  \<^verbatim>\<open>a / b\<close> on two \<^verbatim>\<open>int\<close>s: \<^verbatim>\<open>ZeroDivisionError\<close> on a zero divisor, else the
  quotient correctly rounded to binary64, and \<^verbatim>\<open>OverflowError\<close> when that is too large
  for a float.
\<close>

definition py_truediv :: "int \<Rightarrow> int \<Rightarrow> error + rat" where
  "py_truediv a b =
     (if b = 0 then Inl ZeroDivisionError
      else
        let q = round_binary64 (of_int a / of_int b)
        in if 2 ^ 1024 \<le> \<bar>q\<bar> then Inl OverflowError else Inr q)"

section \<open>The external collaborators\<close>

text \<open>
  What \<^verbatim>\<open>torch.load\<close> returns, as far as the source looks at it: either the mapping
  from names to tensors itself, or a mapping whose key \<^verbatim>\<open>"state_dict"\<close> holds it.
  \<open>'t\<close> is the library's tensor type.
\<close>

datatype 't checkpoint =
    State_dict "(string \<times> 't) list"
  | Wrapper "(string \<times> 't) list"

text \<open>
  The libraries the source calls (torch, safetensors, os, shutil), over an opaque world
  \<open>'w\<close> (the file system) and an opaque tensor type \<open>'t\<close>. A call that only reads
  returns its outcome; a call that writes also returns the new world, on failure too.
  \<open>is_half\<close>, \<open>is_contiguous\<close> and \<open>shares_storage\<close> are the observations
  \<^verbatim>\<open>t.dtype == torch.float16\<close>, \<^verbatim>\<open>t.is_contiguous()\<close> and whether two tensors are
  views of one storage; the source never calls them.
\<close>

record ('w, 't) library =
  torch_load :: "'w \<Rightarrow> string \<Rightarrow> error + 't checkpoint"
  data_ptr :: "'t \<Rightarrow> int"
  contiguous :: "'t \<Rightarrow> 't"
  half :: "'t \<Rightarrow> 't"
  torch_equal :: "'t \<Rightarrow> 't \<Rightarrow> bool"
  is_half :: "'t \<Rightarrow> bool"
  is_contiguous :: "'t \<Rightarrow> bool"
  shares_storage :: "'t \<Rightarrow> 't \<Rightarrow> bool"
  save_file :: "'w \<Rightarrow> (string \<times> 't) list \<Rightarrow> string \<Rightarrow> (string \<times> string) list
                 \<Rightarrow> (error + unit) \<times> 'w"
  load_file :: "'w \<Rightarrow> string \<Rightarrow> error + (string \<times> 't) list"
  os_stat_st_size :: "'w \<Rightarrow> string \<Rightarrow> error + int"
  os_makedirs :: "'w \<Rightarrow> string \<Rightarrow> (error + unit) \<times> 'w"
  os_listdir :: "'w \<Rightarrow> string \<Rightarrow> error + string list"
  os_path_isfile :: "'w \<Rightarrow> string \<Rightarrow> bool"
  shutil_copy :: "'w \<Rightarrow> string \<Rightarrow> string \<Rightarrow> (error + unit) \<times> 'w"

text \<open>Every call of a stateful library function, with its arguments and its outcome.\<close>

datatype 't call =
    Call_torch_load string "error + 't checkpoint"
  | Call_os_makedirs string "error + unit"
  | Call_save_file "(string \<times> 't) list" string "(string \<times> string) list" "error + unit"
  | Call_os_stat string "error + int"
  | Call_os_listdir string "error + string list"
  | Call_os_path_isfile string bool
  | Call_shutil_copy string string "error + unit"
  | Call_load_file string "error + (string \<times> 't) list"

text \<open>
  The state of a run: the world, and the calls made so far, oldest first. A statement of
  the source is a function from the state to an outcome (\<open>Inl\<close> an exception) and the
  state it leaves; an exception keeps the state reached.
\<close>

record ('w, 't) run =
  world :: 'w
  calls :: "'t call list"

type_synonym ('w, 't, 'a) stmt = "('w, 't) run \<Rightarrow> (error + 'a) \<times> ('w, 't) run"

definition ok :: "'a \<Rightarrow> ('w, 't, 'a) stmt" where
  "ok x = (\<lambda>s. (Inr x, s))"

definition raise :: "error \<Rightarrow> ('w, 't, 'a) stmt" where
  "raise e = (\<lambda>s. (Inl e, s))"

definition lift :: "error + 'a \<Rightarrow> ('w, 't, 'a) stmt" where
  "lift r = (\<lambda>s. (r, s))"

definition andthen :: "('w, 't, 'a) stmt \<Rightarrow> ('a \<Rightarrow> ('w, 't, 'b) stmt) \<Rightarrow> ('w, 't, 'b) stmt" where
  "andthen m f = (\<lambda>s. case m s of (Inl e, s') \<Rightarrow> (Inl e, s') | (Inr x, s') \<Rightarrow> f x s')"

definition reading :: "('w \<Rightarrow> error + 'a) \<Rightarrow> (error + 'a \<Rightarrow> 't call) \<Rightarrow> ('w, 't, 'a) stmt" where
  "reading f ev = (\<lambda>s. let r = f (world s) in (r, s\<lparr>calls := calls s @ [ev r]\<rparr>))"

definition writing :: "('w \<Rightarrow> (error + 'a) \<times> 'w) \<Rightarrow> (error + 'a \<Rightarrow> 't call) \<Rightarrow> ('w, 't, 'a) stmt" where
  "writing f ev =
     (\<lambda>s. case f (world s) of (r, w') \<Rightarrow> (r, \<lparr>world = w', calls = calls s @ [ev r]\<rparr>))"

definition call_torch_load :: "('w, 't) library \<Rightarrow> string \<Rightarrow> ('w, 't, 't checkpoint) stmt" where
  "call_torch_load lib p = reading (\<lambda>w. torch_load lib w p) (Call_torch_load p)"

definition call_os_makedirs :: "('w, 't) library \<Rightarrow> string \<Rightarrow> ('w, 't, unit) stmt" where
  "call_os_makedirs lib d = writing (\<lambda>w. os_makedirs lib w d) (Call_os_makedirs d)"

definition call_save_file ::
  "('w, 't) library \<Rightarrow> (string \<times> 't) list \<Rightarrow> string \<Rightarrow> (string \<times> string) list \<Rightarrow> ('w, 't, unit) stmt" where
  "call_save_file lib ts p meta = writing (\<lambda>w. save_file lib w ts p meta) (Call_save_file ts p meta)"

definition call_load_file :: "('w, 't) library \<Rightarrow> string \<Rightarrow> ('w, 't, (string \<times> 't) list) stmt" where
  "call_load_file lib p = reading (\<lambda>w. load_file lib w p) (Call_load_file p)"

definition call_os_stat :: "('w, 't) library \<Rightarrow> string \<Rightarrow> ('w, 't, int) stmt" where
  "call_os_stat lib p = reading (\<lambda>w. os_stat_st_size lib w p) (Call_os_stat p)"

definition call_os_listdir :: "('w, 't) library \<Rightarrow> string \<Rightarrow> ('w, 't, string list) stmt" where
  "call_os_listdir lib d = reading (\<lambda>w. os_listdir lib w d) (Call_os_listdir d)"

definition call_os_path_isfile :: "('w, 't) library \<Rightarrow> string \<Rightarrow> ('w, 't, bool) stmt" where
  "call_os_path_isfile lib p =
     (\<lambda>s. let b = os_path_isfile lib (world s) p
          in (Inr b, s\<lparr>calls := calls s @ [Call_os_path_isfile p b]\<rparr>))"

definition call_shutil_copy :: "('w, 't) library \<Rightarrow> string \<Rightarrow> string \<Rightarrow> ('w, 't, unit) stmt" where
  "call_shutil_copy lib src dst = writing (\<lambda>w. shutil_copy lib w src dst) (Call_shutil_copy src dst)"

section \<open>The functions of \<^verbatim>\<open>convert_to_safetensor.py\<close>\<close>

subsection \<open>\<open>copy_remaining_files\<close>\<close>

text \<open>
  The body of the loop over \<^verbatim>\<open>os.listdir(source_folder)\<close>. \<^verbatim>\<open>os.path.isfile\<close> is
  asked for every entry; the suffixes are looked at only for a regular file.
\<close>

fun copy_listed :: "('w, 't) library \<Rightarrow> string \<Rightarrow> string \<Rightarrow> string list \<Rightarrow> ('w, 't, unit) stmt" where
  "copy_listed lib source_folder destination_folder [] = ok ()"
| "copy_listed lib source_folder destination_folder (file # files) =
     (let file_path = os_path_join source_folder file in
      andthen (call_os_path_isfile lib file_path) (\<lambda>isfile.
      andthen (if isfile \<and> \<not> (str_endswith file ''.bin'' \<or> str_endswith file ''.py'')
               then call_shutil_copy lib file_path destination_folder else ok ()) (\<lambda>_.
      copy_listed lib source_folder destination_folder files)))"

definition copy_remaining_files :: "('w, 't) library \<Rightarrow> string \<Rightarrow> string \<Rightarrow> ('w, 't, unit) stmt" where
  "copy_remaining_files lib source_folder destination_folder =
     andthen (call_os_listdir lib source_folder) (\<lambda>files.
     copy_listed lib source_folder destination_folder files)"

subsection \<open>\<open>check_file_size\<close>\<close>

text \<open>
  The f-string of the \<^verbatim>\<open>RuntimeError\<close>, with its line breaks and indentation.
\<close>

definition size_message :: "string \<Rightarrow> int \<Rightarrow> string \<Rightarrow> int \<Rightarrow> string" where
  "size_message sf_filename sf_size pt_filename pt_size =
     ''The file size different is more than 1%:'' @ [CHR 0x0A] @
     ''            - '' @ sf_filename @ '': '' @ str_int sf_size @ [CHR 0x0A] @
     ''            - '' @ pt_filename @ '': '' @ str_int pt_size @ [CHR 0x0A] @
     ''            ''"

text \<open>
  Line 37, \<^verbatim>\<open>(sf_size - pt_size) / pt_size > 0.01\<close>: the difference of two Python
  integers, their division as floats, and the comparison of two floats.
\<close>

definition check_file_size :: "('w, 't) library \<Rightarrow> string \<Rightarrow> string \<Rightarrow> ('w, 't, unit) stmt" where
  "check_file_size lib sf_filename pt_filename =
     andthen (call_os_stat lib sf_filename) (\<lambda>sf_size.
     andthen (call_os_stat lib pt_filename) (\<lambda>pt_size.
     andthen (lift (py_truediv (sf_size - pt_size) pt_size)) (\<lambda>ratio.
     if ratio > float_0_01
     then raise (RuntimeError (size_message sf_filename sf_size pt_filename pt_size))
     else ok ())))"

subsection \<open>\<open>convert_file\<close>\<close>

text \<open>
  \<^verbatim>\<open>if "state_dict" in loaded: loaded = loaded["state_dict"]\<close>. A mapping from names to
  tensors that has a tensor under the name \<^verbatim>\<open>"state_dict"\<close> leaves a tensor in
  \<^verbatim>\<open>loaded\<close>, and \<^verbatim>\<open>tensors.items()\<close> in \<open>get_shared_weights\<close> raises.
\<close>

fun select_state_dict :: "'t checkpoint \<Rightarrow> error + (string \<times> 't) list" where
  "select_state_dict (Wrapper sd) = Inr sd"
| "select_state_dict (State_dict loaded) =
     (if ''state_dict'' \<in> set (map fst loaded) then Inl AttributeError else Inr loaded)"

text \<open>\<^verbatim>\<open>{k: v.contiguous().half() for k, v in loaded.items()}\<close>\<close>

definition normalize :: "('w, 't) library \<Rightarrow> (string \<times> 't) list \<Rightarrow> (string \<times> 't) list" where
  "normalize lib loaded = map (\<lambda>(k, v). (k, half lib (contiguous lib v))) loaded"

text \<open>
  The loop of lines 79 to 81 over \<^verbatim>\<open>loaded.items()\<close>; \<^verbatim>\<open>reloaded[k]\<close> raises
  \<^verbatim>\<open>KeyError\<close> for a name the reloaded mapping lacks.
\<close>

fun compare_reloaded ::
  "('w, 't) library \<Rightarrow> (string \<times> 't) list \<Rightarrow> (string \<times> 't) list \<Rightarrow> error + unit" where
  "compare_reloaded lib [] reloaded = Inr ()"
| "compare_reloaded lib ((k, v) # items) reloaded =
     (case map_of reloaded k of
        None \<Rightarrow> Inl (KeyError k)
      | Some r \<Rightarrow>
          if \<not> torch_equal lib v r
          then Inl (RuntimeError (''Mismatch in tensors for key '' @ k @ ''.''))
          else compare_reloaded lib items reloaded)"

definition convert_file ::
  "('w, 't) library \<Rightarrow> string \<Rightarrow> string \<Rightarrow> bool \<Rightarrow> ('w, 't, unit) stmt" where
  "convert_file lib pt_filename sf_filename copy_add_data =
     (let src_dir = os_path_dirname pt_filename;
          dest_dir = os_path_dirname sf_filename in
      andthen (call_torch_load lib pt_filename) (\<lambda>loaded.
      andthen (lift (select_state_dict loaded)) (\<lambda>loaded.
      andthen (lift (resolve_aliases (data_ptr lib) loaded)) (\<lambda>loaded.
      let loaded = normalize lib loaded in
      andthen (call_os_makedirs lib dest_dir) (\<lambda>_.
      andthen (call_save_file lib loaded sf_filename [(''format'', ''pt'')]) (\<lambda>_.
      andthen (check_file_size lib sf_filename pt_filename) (\<lambda>_.
      andthen (if copy_add_data then copy_remaining_files lib src_dir dest_dir else ok ()) (\<lambda>_.
      andthen (call_load_file lib sf_filename) (\<lambda>reloaded.
      lift (compare_reloaded lib loaded reloaded))))))))))"

subsection \<open>\<open>main\<close>\<close>

text \<open>
  The namespace \<^verbatim>\<open>parser.parse_args()\<close> returns: neither argument is declared
  required or given a default, so an argument absent from the command line is
  \<^verbatim>\<open>None\<close>.
\<close>

record args =
  src_directory :: "string option"
  dest_directory :: "string option"

text \<open>\<^verbatim>\<open>x.strip()\<close> on a value that is a string or \<^verbatim>\<open>None\<close>.\<close>

fun strip_attr :: "string option \<Rightarrow> error + string" where
  "strip_attr None = Inl AttributeError"
| "strip_attr (Some s) = Inr (str_strip s)"

definition main :: "('w, 't) library \<Rightarrow> args \<Rightarrow> ('w, 't, unit) stmt" where
  "main lib args =
     andthen (lift (strip_attr (src_directory args))) (\<lambda>src_dir.
     andthen (lift (strip_attr (dest_directory args))) (\<lambda>dest_dir.
     let dest_dir =
           (if dest_dir = [] then
              (let model_name = os_path_basename (os_path_normpath src_dir)
               in os_path_join src_dir (model_name @ ''_safetensors''))
            else dest_dir) in
     andthen (call_os_listdir lib src_dir) (\<lambda>listing.
     if ''pytorch_model.bin'' \<notin> set listing
     then raise (RuntimeError
       ''pytorch_model.bin file not found. Please ensure the correct source directory is specified.'')
     else convert_file lib (os_path_join src_dir ''pytorch_model.bin'')
            (os_path_join dest_dir ''model.safetensors'') True)))"

section \<open>The stages of the pipeline\<close>

text \<open>
  The component each stateful call belongs to. The Alias Resolver and the Precision
  Normalizer make no stateful call: they are the functions \<open>resolve_aliases\<close> and
  \<open>normalize\<close> between what \<^verbatim>\<open>torch.load\<close> returned and what \<^verbatim>\<open>save_file\<close> is given.
\<close>

datatype stage = Loader | Container_Writer | Size_Drift_Check | Sidecar_Copier | Round_Trip_Check

fun stage_of :: "'t call \<Rightarrow> stage" where
  "stage_of (Call_torch_load p r) = Loader"
| "stage_of (Call_os_makedirs d r) = Container_Writer"
| "stage_of (Call_save_file ts p meta r) = Container_Writer"
| "stage_of (Call_os_stat p r) = Size_Drift_Check"
| "stage_of (Call_os_listdir d r) = Sidecar_Copier"
| "stage_of (Call_os_path_isfile p b) = Sidecar_Copier"
| "stage_of (Call_shutil_copy src dst r) = Sidecar_Copier"
| "stage_of (Call_load_file p r) = Round_Trip_Check"

text \<open>The calls a statement made: those of the final state beyond those of the initial one.\<close>

definition new_calls :: "('w, 't) run \<Rightarrow> ('w, 't) run \<Rightarrow> 't call list" where
  "new_calls s s' = drop (length (calls s)) (calls s')"

section \<open>A reference library\<close>

text \<open>
  One concrete library to run the functions on: tensors that carry their observable
  attributes, and an in-memory file system keyed by path. A container file takes 8 bytes
  and 2 bytes for every element it holds.

  A tensor is a view of a storage, an allocation with its base address and its size in
  bytes, from an offset counted in elements. After torch's documentation,
  \<^verbatim>\<open>data_ptr()\<close> is the address of the first element of the tensor; a tensor without
  elements has the null address. An element is a number or a NaN, and
  \<^verbatim>\<open>torch.equal\<close> holds for two tensors of the same size whose elements are equal
  by \<^verbatim>\<open>==\<close>, which a NaN is to nothing.
\<close>

datatype dtype = Float32 | Float16 | Int64

fun itemsize :: "dtype \<Rightarrow> int" where
  "itemsize Float32 = 4"
| "itemsize Float16 = 2"
| "itemsize Int64 = 8"

datatype element = Val int | NaN

record storage =
  s_id :: nat
  s_base :: int
  s_nbytes :: int

record tensor =
  t_storage :: storage
  t_offset :: int
  t_dtype :: dtype
  t_contig :: bool
  t_elems :: "element list"

definition ref_data_ptr :: "tensor \<Rightarrow> int" where
  "ref_data_ptr t =
     (if t_elems t = [] then 0
      else s_base (t_storage t) + t_offset t * itemsize (t_dtype t))"

definition ref_shares_storage :: "tensor \<Rightarrow> tensor \<Rightarrow> bool" where
  "ref_shares_storage a b \<longleftrightarrow> t_storage a = t_storage b"

fun element_eq :: "element \<Rightarrow> element \<Rightarrow> bool" where
  "element_eq (Val x) (Val y) \<longleftrightarrow> x = y"
| "element_eq NaN y \<longleftrightarrow> False"
| "element_eq x NaN \<longleftrightarrow> False"

definition ref_torch_equal :: "tensor \<Rightarrow> tensor \<Rightarrow> bool" where
  "ref_torch_equal a b \<longleftrightarrow> list_all2 element_eq (t_elems a) (t_elems b)"

text \<open>
  The first element of a view lies inside its storage; two allocations do not overlap.
\<close>

definition first_element_inside :: "tensor \<Rightarrow> bool" where
  "first_element_inside t \<longleftrightarrow>
     0 \<le> t_offset t \<and> (t_offset t + 1) * itemsize (t_dtype t) \<le> s_nbytes (t_storage t)"

definition separate_allocations :: "storage \<Rightarrow> storage \<Rightarrow> bool" where
  "separate_allocations s1 s2 \<longleftrightarrow>
     s_base s1 + s_nbytes s1 \<le> s_base s2 \<or> s_base s2 + s_nbytes s2 \<le> s_base s1"

datatype file_data =
    Pickle_file int "tensor checkpoint"
  | Safetensors_file "(string \<times> tensor) list" "(string \<times> string) list"
  | Plain_file int

record fs =
  dirs :: "string list"
  files :: "(string \<times> file_data) list"

fun file_size :: "file_data \<Rightarrow> int" where
  "file_size (Pickle_file n c) = n"
| "file_size (Safetensors_file ts meta) = 8 + 2 * int (length (concat (map (t_elems \<circ> snd) ts)))"
| "file_size (Plain_file n) = n"

fun put_file :: "(string \<times> file_data) list \<Rightarrow> string \<Rightarrow> file_data \<Rightarrow> (string \<times> file_data) list" where
  "put_file [] p f = [(p, f)]"
| "put_file ((q, g) # rest) p f = (if q = p then (q, f) # rest else (q, g) # put_file rest p f)"

definition ref_torch_load :: "fs \<Rightarrow> string \<Rightarrow> error + tensor checkpoint" where
  "ref_torch_load w p =
     (case map_of (files w) p of
        Some (Pickle_file n c) \<Rightarrow> Inr c
      | Some _ \<Rightarrow> Inl (LibraryError ''UnpicklingError'')
      | None \<Rightarrow> Inl (LibraryError ''FileNotFoundError''))"

text \<open>A copy lives in a storage of its own, of the size of its elements.\<close>

definition copy_storage :: "storage \<Rightarrow> nat \<Rightarrow> int \<Rightarrow> storage" where
  "copy_storage s k nbytes = \<lparr>s_id = s_id s + k, s_base = s_base s + int k * 1048576, s_nbytes = nbytes\<rparr>"

definition ref_contiguous :: "tensor \<Rightarrow> tensor" where
  "ref_contiguous t =
     (if t_contig t then t
      else t\<lparr>t_storage := copy_storage (t_storage t) 1 (int (length (t_elems t)) * itemsize (t_dtype t)),
             t_offset := 0, t_contig := True\<rparr>)"

definition ref_half :: "tensor \<Rightarrow> tensor" where
  "ref_half t =
     (if t_dtype t = Float16 then t
      else t\<lparr>t_storage := copy_storage (t_storage t) 2 (int (length (t_elems t)) * 2),
             t_offset := 0, t_dtype := Float16\<rparr>)"

definition ref_save_file ::
  "fs \<Rightarrow> (string \<times> tensor) list \<Rightarrow> string \<Rightarrow> (string \<times> string) list \<Rightarrow> (error + unit) \<times> fs" where
  "ref_save_file w ts p meta =
     (if os_path_dirname p \<in> set (dirs w)
      then (Inr (), w\<lparr>files := put_file (files w) p (Safetensors_file ts meta)\<rparr>)
      else (Inl (LibraryError ''FileNotFoundError''), w))"

definition ref_load_file :: "fs \<Rightarrow> string \<Rightarrow> error + (string \<times> tensor) list" where
  "ref_load_file w p =
     (case map_of (files w) p of
        Some (Safetensors_file ts meta) \<Rightarrow> Inr ts
      | Some _ \<Rightarrow> Inl (LibraryError ''SafetensorError'')
      | None \<Rightarrow> Inl (LibraryError ''FileNotFoundError''))"

definition ref_stat :: "fs \<Rightarrow> string \<Rightarrow> error + int" where
  "ref_stat w p =
     (case map_of (files w) p of
        Some f \<Rightarrow> Inr (file_size f)
      | None \<Rightarrow> Inl (LibraryError ''FileNotFoundError''))"

definition ref_makedirs :: "fs \<Rightarrow> string \<Rightarrow> (error + unit) \<times> fs" where
  "ref_makedirs w d = (Inr (), if d \<in> set (dirs w) then w else w\<lparr>dirs := dirs w @ [d]\<rparr>)"

definition ref_listdir :: "fs \<Rightarrow> string \<Rightarrow> error + string list" where
  "ref_listdir w d =
     (if d \<in> set (dirs w)
      then Inr (map os_path_basename
                 (filter (\<lambda>p. os_path_dirname p = d \<and> p \<noteq> d) (map fst (files w) @ dirs w)))
      else Inl (LibraryError ''FileNotFoundError''))"

definition ref_isfile :: "fs \<Rightarrow> string \<Rightarrow> bool" where
  "ref_isfile w p \<longleftrightarrow> map_of (files w) p \<noteq> None"

definition ref_copy :: "fs \<Rightarrow> string \<Rightarrow> string \<Rightarrow> (error + unit) \<times> fs" where
  "ref_copy w src dst =
     (case map_of (files w) src of
        None \<Rightarrow> (Inl (LibraryError ''FileNotFoundError''), w)
      | Some f \<Rightarrow>
          (Inr (), w\<lparr>files := put_file (files w)
             (if dst \<in> set (dirs w) then os_path_join dst (os_path_basename src) else dst) f\<rparr>))"

definition ref_library :: "(fs, tensor) library" where
  "ref_library =
     \<lparr>torch_load = ref_torch_load,
      data_ptr = ref_data_ptr,
      contiguous = ref_contiguous,
      half = ref_half,
      torch_equal = ref_torch_equal,
      is_half = (\<lambda>t. t_dtype t = Float16),
      is_contiguous = t_contig,
      shares_storage = ref_shares_storage,
      save_file = ref_save_file,
      load_file = ref_load_file,
      os_stat_st_size = ref_stat,
      os_makedirs = ref_makedirs,
      os_listdir = ref_listdir,
      os_path_isfile = ref_isfile,
      shutil_copy = ref_copy\<rparr>"

text \<open>
  A source directory \<^verbatim>\<open>/data/foo\<close>: a checkpoint of 64 bytes with three names, of which
  \<^verbatim>\<open>w2\<close> is an alias of \<^verbatim>\<open>w1\<close>, a configuration file and a script.
\<close>

definition tensor_a :: tensor where
  "tensor_a =
     \<lparr>t_storage = \<lparr>s_id = 1, s_base = 4096, s_nbytes = 16\<rparr>, t_offset = 0,
      t_dtype = Float32, t_contig = True, t_elems = [Val 1, Val 2, Val 3, Val 4]\<rparr>"

definition tensor_b :: tensor where
  "tensor_b =
     \<lparr>t_storage = \<lparr>s_id = 2, s_base = 8192, s_nbytes = 64\<rparr>, t_offset = 0,
      t_dtype = Int64, t_contig = False, t_elems = [Val 5, Val 6]\<rparr>"

definition foo_checkpoint :: "tensor checkpoint" where
  "foo_checkpoint = State_dict [(''w1'', tensor_a), (''w2'', tensor_a), (''b'', tensor_b)]"

definition foo_world :: fs where
  "foo_world =
     \<lparr>dirs = [''/data'', ''/data/foo''],
      files = [(''/data/foo/pytorch_model.bin'', Pickle_file 64 foo_checkpoint),
               (''/data/foo/config.json'', Plain_file 120),
               (''/data/foo/train.py'', Plain_file 300)]\<rparr>"

definition start :: "fs \<Rightarrow> (fs, tensor) run" where
  "start w = \<lparr>world = w, calls = []\<rparr>"

definition foo_args :: args where
  "foo_args = \<lparr>src_directory = Some ''/data/foo'', dest_directory = Some ''/data/out''\<rparr>"

text \<open>
  The place of each stage in the order in which \<open>convert_file\<close> runs them: the
  round-trip check comes after the Sidecar Copier.
\<close>

fun stage_rank :: "stage \<Rightarrow> nat" where
  "stage_rank Loader = 0"
| "stage_rank Container_Writer = 1"
| "stage_rank Size_Drift_Check = 2"
| "stage_rank Sidecar_Copier = 3"
| "stage_rank Round_Trip_Check = 4"

text \<open>A source directory without the checkpoint, and one whose checkpoint is empty.\<close>

definition bare_world :: fs where
  "bare_world =
     \<lparr>dirs = [''/data'', ''/data/foo''],
      files = [(''/data/foo/config.json'', Plain_file 120)]\<rparr>"

definition zero_world :: fs where
  "zero_world =
     \<lparr>dirs = [''/data'', ''/data/foo'', ''/data/out''],
      files = [(''/data/foo/pytorch_model.bin'', Plain_file 0),
               (''/data/out/model.safetensors'', Safetensors_file [] [(''format'', ''pt'')])]\<rparr>"

text \<open>
  What the run on \<open>foo_world\<close> writes, and a source directory that also holds an older
  container under the name of the output file.
\<close>

definition foo_written :: "(string \<times> tensor) list" where
  "foo_written =
     [(''w1'', \<lparr>t_storage = \<lparr>s_id = 3, s_base = 2101248, s_nbytes = 8\<rparr>, t_offset = 0,
               t_dtype = Float16, t_contig = True, t_elems = [Val 1, Val 2, Val 3, Val 4]\<rparr>),
      (''b'', \<lparr>t_storage = \<lparr>s_id = 5, s_base = 3153920, s_nbytes = 4\<rparr>, t_offset = 0,
              t_dtype = Float16, t_contig = True, t_elems = [Val 5, Val 6]\<rparr>)]"





definition view_low :: tensor where
  "view_low =
     \<lparr>t_storage = \<lparr>s_id = 10, s_base = 32768, s_nbytes = 12\<rparr>, t_offset = 0,
      t_dtype = Float32, t_contig = True, t_elems = [Val 1, Val 2]\<rparr>"

definition view_high :: tensor where
  "view_high =
     \<lparr>t_storage = \<lparr>s_id = 10, s_base = 32768, s_nbytes = 12\<rparr>, t_offset = 1,
      t_dtype = Float32, t_contig = True, t_elems = [Val 2, Val 3]\<rparr>"

definition empty_a :: tensor where
  "empty_a =
     \<lparr>t_storage = \<lparr>s_id = 11, s_base = 0, s_nbytes = 0\<rparr>, t_offset = 0,
      t_dtype = Float32, t_contig = True, t_elems = []\<rparr>"

definition empty_b :: tensor where
  "empty_b =
     \<lparr>t_storage = \<lparr>s_id = 12, s_base = 0, s_nbytes = 0\<rparr>, t_offset = 0,
      t_dtype = Float32, t_contig = True, t_elems = []\<rparr>"

section \<open>Alias resolution keeps the first name of every alias group\<close>

lemma tmp_append_keys:
  "map fst (tmp_append tmp p k) = (if p \<in> set (map fst tmp) then map fst tmp else map fst tmp @ [p])"
  by (induction tmp p k rule: tmp_append.induct) auto

lemma tmp_append_map_of:
  "map_of (tmp_append tmp p k) =
     (map_of tmp)(p \<mapsto> (case map_of tmp p of None \<Rightarrow> [k] | Some names \<Rightarrow> names @ [k]))"
  by (induction tmp p k rule: tmp_append.induct) (auto simp: fun_eq_iff)

lemma tmp_append_mset:
  "mset (concat (map snd (tmp_append tmp p k))) = mset (concat (map snd tmp)) + {#k#}"
  by (induction tmp p k rule: tmp_append.induct) auto

lemma build_tmp_snoc:
  "build_tmp dp (xs @ [(k, v)]) = tmp_append (build_tmp dp xs) (dp v) k"
  by (simp add: build_tmp_def)

lemma build_tmp_distinct: "distinct (map fst (build_tmp dp xs))"
proof (induction xs rule: rev_induct)
  case Nil
  then show ?case by (simp add: build_tmp_def)
next
  case (snoc x xs)
  obtain k v where x: "x = (k, v)" by (cases x)
  show ?case using snoc by (simp add: x build_tmp_snoc tmp_append_keys)
qed

lemma build_tmp_map_of:
  "map_of (build_tmp dp xs) p =
     (if p \<in> dp ` snd ` set xs then Some (alias_group dp xs p) else None)"
proof (induction xs rule: rev_induct)
  case Nil
  then show ?case by (simp add: build_tmp_def)
next
  case (snoc x xs)
  obtain k v where x: "x = (k, v)" by (cases x)
  show ?case using snoc
    by (fastforce simp: x build_tmp_snoc tmp_append_map_of alias_group_def image_iff filter_empty_conv)
qed

lemma build_tmp_mset:
  "mset (concat (map snd (build_tmp dp xs))) = mset (map fst xs)"
proof (induction xs rule: rev_induct)
  case Nil
  then show ?case by (simp add: build_tmp_def)
next
  case (snoc x xs)
  obtain k v where x: "x = (k, v)" by (cases x)
  show ?case using snoc by (simp add: x build_tmp_snoc tmp_append_mset)
qed

lemma build_tmp_groups:
  "set (map snd (build_tmp dp xs)) = (\<lambda>p. alias_group dp xs p) ` dp ` snd ` set xs"
proof -
  have "set (map snd (build_tmp dp xs)) = ran (map_of (build_tmp dp xs))"
    using build_tmp_distinct[of dp xs] by (simp add: ran_distinct)
  also have "\<dots> = (\<lambda>p. alias_group dp xs p) ` dp ` snd ` set xs"
    by (auto simp: ran_def build_tmp_map_of split: if_splits)
  finally show ?thesis .
qed

lemma pop_names_ok:
  "distinct names \<Longrightarrow> set names \<subseteq> set (map fst d) \<Longrightarrow>
   pop_names d names = Inr (filter (\<lambda>(k, v). k \<notin> set names) d)"
proof (induction names arbitrary: d)
  case Nil
  then show ?case by simp
next
  case (Cons n ns)
  have "set ns \<subseteq> set (map fst (filter (\<lambda>(k, v). k \<noteq> n) d))"
    using Cons.prems by force
  with Cons show ?case
    by (auto simp: dict_pop_def intro!: filter_cong)
qed

lemma pop_shared_ok:
  "distinct (concat (map tl gs)) \<Longrightarrow> set (concat (map tl gs)) \<subseteq> set (map fst d) \<Longrightarrow>
   pop_shared d gs = Inr (filter (\<lambda>(k, v). k \<notin> set (concat (map tl gs))) d)"
proof (induction gs arbitrary: d)
  case Nil
  then show ?case by simp
next
  case (Cons g gs)
  let ?d' = "filter (\<lambda>(k, v). k \<notin> set (tl g)) d"
  have 1: "pop_names d (tl g) = Inr ?d'"
    using Cons.prems by (intro pop_names_ok) auto
  have 2: "set (concat (map tl gs)) \<subseteq> set (map fst ?d')"
    using Cons.prems by force
  have 3: "distinct (concat (map tl gs))" using Cons.prems by simp
  show ?case using Cons.IH[OF 3 2] 1
    by (auto intro!: filter_cong)
qed

lemma distinct_concat_tl_filter:
  "distinct (concat xss) \<Longrightarrow> distinct (concat (map tl (filter P xss)))"
proof (induction xss)
  case Nil
  then show ?case by simp
next
  case (Cons xs xss)
  have "set (tl xs) \<subseteq> set xs" by (cases xs) auto
  moreover have "\<And>ys. ys \<in> set xss \<Longrightarrow> set (tl ys) \<subseteq> set ys"
    subgoal for ys by (cases ys) auto done
  ultimately show ?case using Cons
    by (auto simp: distinct_tl) blast+
qed


lemma in_set_tl: "x \<in> set (tl xs) \<Longrightarrow> x \<in> set xs"
  by (cases xs) auto

lemma alias_group_distinct:
  "distinct (map fst xs) \<Longrightarrow> distinct (alias_group dp xs p)"
  by (simp add: alias_group_def distinct_map_filter)

lemma alias_group_member:
  "k \<in> set (alias_group dp xs p) \<longleftrightarrow> (\<exists>v. (k, v) \<in> set xs \<and> dp v = p)"
  by (force simp: alias_group_def)

lemma get_shared_weights_set:
  "set (get_shared_weights dp xs) =
     {alias_group dp xs p | p. p \<in> dp ` snd ` set xs \<and> length (alias_group dp xs p) > 1}"
  using build_tmp_groups[of dp xs] by (auto simp: get_shared_weights_def)

lemma resolve_aliases_eq:
  assumes "distinct (map fst loaded)"
  shows "resolve_aliases dp loaded =
     Inr (filter (\<lambda>(k, v). k = hd (alias_group dp loaded (dp v))) loaded)"
proof -
  let ?gs = "get_shared_weights dp loaded"
  let ?S = "set (concat (map tl ?gs))"
  have dk: "distinct (concat (map snd (build_tmp dp loaded)))"
    using assms build_tmp_mset[of dp loaded] by (metis mset_eq_imp_distinct_iff)
  have d: "distinct (concat (map tl ?gs))"
    unfolding get_shared_weights_def by (rule distinct_concat_tl_filter[OF dk])
  have sub: "?S \<subseteq> set (map fst loaded)"
  proof
    fix k assume "k \<in> ?S"
    then obtain g where g: "g \<in> set ?gs" "k \<in> set (tl g)" by auto
    from g(2) have "k \<in> set g" by (rule in_set_tl)
    with g(1) show "k \<in> set (map fst loaded)"
      by (force simp: get_shared_weights_set alias_group_member)
  qed
  have key: "k \<notin> ?S \<longleftrightarrow> k = hd (alias_group dp loaded (dp v))" if kv: "(k, v) \<in> set loaded" for k v
  proof -
    let ?g = "alias_group dp loaded (dp v)"
    have kin: "k \<in> set ?g" using kv by (auto simp: alias_group_member)
    have dg: "distinct ?g" by (rule alias_group_distinct[OF assms])
    show ?thesis
    proof
      assume notin: "k \<notin> ?S"
      show "k = hd ?g"
      proof (rule ccontr)
        assume ne: "k \<noteq> hd ?g"
        with kin have ktl: "k \<in> set (tl ?g)" by (cases ?g) auto
        then have "length ?g > 1" by (cases ?g) auto
        then have "?g \<in> set ?gs" using kv by (force simp: get_shared_weights_set)
        with ktl notin show False by auto
      qed
    next
      assume hd: "k = hd ?g"
      show "k \<notin> ?S"
      proof
        assume "k \<in> ?S"
        then obtain g where g: "g \<in> set ?gs" "k \<in> set (tl g)" by auto
        then obtain p where p: "g = alias_group dp loaded p" by (auto simp: get_shared_weights_set)
        have "k \<in> set g" using g(2) by (rule in_set_tl)
        then obtain v' where "(k, v') \<in> set loaded" "dp v' = p" by (auto simp: p alias_group_member)
        with kv assms have "p = dp v" by (metis eq_key_imp_eq_value)
        with p have "g = ?g" by simp
        with g(2) hd dg show False by (cases ?g) auto
      qed
    qed
  qed
  have "filter (\<lambda>(k, v). k \<notin> ?S) loaded = filter (\<lambda>(k, v). k = hd (alias_group dp loaded (dp v))) loaded"
  proof (rule filter_cong[OF refl])
    fix x assume x: "x \<in> set loaded"
    obtain k v where kv: "x = (k, v)" by (cases x)
    show "(case x of (k, v) \<Rightarrow> k \<notin> ?S) = (case x of (k, v) \<Rightarrow> k = hd (alias_group dp loaded (dp v)))"
      unfolding kv prod.case using x kv by (intro key) simp
  qed
  then show ?thesis
    unfolding resolve_aliases_def using pop_shared_ok[OF d sub] by simp
qed


lemma filter_eq_length_le_1:
  "distinct (map f xs) \<Longrightarrow> length (filter (\<lambda>x. f x = p) xs) \<le> 1"
proof (induction xs)
  case Nil
  then show ?case by simp
next
  case (Cons a xs)
  show ?case
  proof (cases "f a = p")
    case True
    have "f a \<notin> f ` set xs" using Cons.prems by simp
    then have "filter (\<lambda>x. f x = p) xs = []"
      unfolding filter_empty_conv using True by blast
    with True show ?thesis by simp
  next
    case False
    with Cons show ?thesis by simp
  qed
qed

lemma get_shared_weights_Nil:
  assumes "distinct (map (dp \<circ> snd) xs)"
  shows "get_shared_weights dp xs = []"
proof -
  have "length (alias_group dp xs p) \<le> 1" for p
    using filter_eq_length_le_1[OF assms, of p]
    by (simp add: alias_group_def split_def comp_def)
  then have "set (get_shared_weights dp xs) = {}"
    unfolding get_shared_weights_set by (auto simp: not_less)
  then show ?thesis by simp
qed

lemma kept_distinct_ptr:
  assumes "distinct (map fst xs)"
  shows "distinct (map (dp \<circ> snd) (filter (\<lambda>(k, v). k = hd (alias_group dp xs (dp v))) xs))"
proof -
  let ?kept = "filter (\<lambda>(k, v). k = hd (alias_group dp xs (dp v))) xs"
  have dx: "distinct xs" using assms by (simp add: distinct_map)
  have "inj_on (dp \<circ> snd) (set ?kept)"
  proof (rule inj_onI)
    fix a b assume a: "a \<in> set ?kept" and b: "b \<in> set ?kept" and eq: "(dp \<circ> snd) a = (dp \<circ> snd) b"
    obtain k v where kv: "a = (k, v)" by (cases a)
    obtain k' v' where kv': "b = (k', v')" by (cases b)
    from a b eq have "k = k'" by (simp add: kv kv')
    moreover have "a \<in> set xs" "b \<in> set xs" using a b by auto
    then have "(k, v) \<in> set xs" "(k', v') \<in> set xs" unfolding kv kv' .
    ultimately have "v = v'" using assms by (metis eq_key_imp_eq_value)
    with \<open>k = k'\<close> show "a = b" by (simp add: kv kv')
  qed
  moreover have "distinct ?kept" using dx by simp
  ultimately show ?thesis by (simp add: distinct_map)
qed

text \<open>
  C3, as the code has it. On a mapping (distinct names), alias resolution raises nothing
  and leaves, in their original order, exactly the entries whose name is the first of its
  alias group, the group of the names whose tensors have the same data pointer. So two
  different entries with one data pointer are never both left (with three or more names
  in a group, two of them are both removed), and an entry alone in its group is kept.
\<close>

theorem resolve_aliases_keeps_first:
  assumes "distinct (map fst loaded)"
  shows "\<exists>kept. resolve_aliases dp loaded = Inr kept \<and>
     kept = filter (\<lambda>(k, v). k = hd (alias_group dp loaded (dp v))) loaded \<and>
     (\<forall>(a, va) \<in> set loaded. \<forall>(b, vb) \<in> set loaded.
        a \<noteq> b \<and> dp va = dp vb \<longrightarrow> \<not> ((a, va) \<in> set kept \<and> (b, vb) \<in> set kept)) \<and>
     (\<forall>(k, v) \<in> set loaded. alias_group dp loaded (dp v) = [k] \<longrightarrow> (k, v) \<in> set kept)"
proof -
  let ?kept = "filter (\<lambda>(k, v). k = hd (alias_group dp loaded (dp v))) loaded"
  have "resolve_aliases dp loaded = Inr ?kept"
    using assms by (rule resolve_aliases_eq)
  moreover have "\<not> ((a, va) \<in> set ?kept \<and> (b, vb) \<in> set ?kept)"
    if "a \<noteq> b" "dp va = dp vb" for a va b vb
    using that by auto
  moreover have "(k, v) \<in> set ?kept"
    if "(k, v) \<in> set loaded" "alias_group dp loaded (dp v) = [k]" for k v
    using that by simp
  ultimately show ?thesis by blast
qed

theorem resolve_aliases_keeps_first_witness:
  "distinct (map fst [(''w1'', tensor_a), (''w2'', tensor_a), (''b'', tensor_b)]) \<and>
   resolve_aliases ref_data_ptr [(''w1'', tensor_a), (''w2'', tensor_a), (''b'', tensor_b)]
     = Inr [(''w1'', tensor_a), (''b'', tensor_b)]"
proof -
  let ?xs = "[(''w1'', tensor_a), (''w2'', tensor_a), (''b'', tensor_b)]"
  have h: "distinct (map fst ?xs)" by simp
  have e: "filter (\<lambda>(k, v). k = hd (alias_group ref_data_ptr ?xs (ref_data_ptr v))) ?xs
             = [(''w1'', tensor_a), (''b'', tensor_b)]" by code_simp
  from resolve_aliases_keeps_first[OF h, of ref_data_ptr] obtain kept
    where "resolve_aliases ref_data_ptr ?xs = Inr kept"
      and "kept = filter (\<lambda>(k, v). k = hd (alias_group ref_data_ptr ?xs (ref_data_ptr v))) ?xs"
    by blast
  with e h show ?thesis by simp
qed

text \<open>
  C3 as stated fails on three names of one storage: \<^verbatim>\<open>w2\<close> and \<^verbatim>\<open>w3\<close> share the
  storage of \<open>tensor_a\<close>, and neither of the two is left.
\<close>

theorem three_aliases_counterexample:
  "resolve_aliases ref_data_ptr [(''w1'', tensor_a), (''w2'', tensor_a), (''w3'', tensor_a)]
     = Inr [(''w1'', tensor_a)]"
  by code_simp

text \<open>
  C9. Alias resolution applied to its own output finds no group of more than one name
  and removes nothing.
\<close>

theorem resolve_aliases_idempotent:
  assumes "distinct (map fst loaded)" and "resolve_aliases dp loaded = Inr kept"
  shows "get_shared_weights dp kept = [] \<and> resolve_aliases dp kept = Inr kept"
proof -
  have k: "kept = filter (\<lambda>(k, v). k = hd (alias_group dp loaded (dp v))) loaded"
    using assms resolve_aliases_eq[OF assms(1), of dp] by simp
  have "get_shared_weights dp kept = []"
    unfolding k by (rule get_shared_weights_Nil[OF kept_distinct_ptr[OF assms(1)]])
  then show ?thesis by (simp add: resolve_aliases_def)
qed

theorem resolve_aliases_idempotent_witness:
  "distinct (map fst [(''w1'', tensor_a), (''w2'', tensor_a), (''b'', tensor_b)]) \<and>
   resolve_aliases ref_data_ptr [(''w1'', tensor_a), (''w2'', tensor_a), (''b'', tensor_b)]
     = Inr [(''w1'', tensor_a), (''b'', tensor_b)] \<and>
   get_shared_weights ref_data_ptr [(''w1'', tensor_a), (''b'', tensor_b)] = [] \<and>
   resolve_aliases ref_data_ptr [(''w1'', tensor_a), (''b'', tensor_b)]
     = Inr [(''w1'', tensor_a), (''b'', tensor_b)]"
proof -
  let ?xs = "[(''w1'', tensor_a), (''w2'', tensor_a), (''b'', tensor_b)]"
  have h: "distinct (map fst ?xs)" by simp
  have r: "resolve_aliases ref_data_ptr ?xs = Inr [(''w1'', tensor_a), (''b'', tensor_b)]" by code_simp
  from resolve_aliases_idempotent[OF h r] h r show ?thesis by blast
qed

section \<open>Rounding to binary64\<close>

lemma rhe_bounds: "of_int (round_half_even x) \<le> x + 1 / 2 \<and> x - 1 / 2 \<le> of_int (round_half_even x)"
  unfolding round_half_even_def Let_def by (auto; linarith)

lemma rhe_of_int [simp]: "round_half_even (of_int n) = n"
  by (simp add: round_half_even_def)

lemma rhe_cases:
  "round_half_even x = \<lfloor>x\<rfloor> \<or> round_half_even x = \<lfloor>x\<rfloor> + 1"
  by (auto simp: round_half_even_def Let_def)

lemma rhe_ge_int: "of_int n \<le> x \<Longrightarrow> n \<le> round_half_even x"
proof -
  assume "of_int n \<le> x"
  then have "n \<le> \<lfloor>x\<rfloor>" by (simp add: le_floor_iff)
  with rhe_cases[of x] show ?thesis by auto
qed

lemma rhe_le_int: "x \<le> of_int n \<Longrightarrow> round_half_even x \<le> n"
proof -
  assume le: "x \<le> of_int n"
  show ?thesis
  proof (cases "x = of_int n")
    case True
    then show ?thesis by simp
  next
    case False
    with le have "x < of_int n" by simp
    then have "\<lfloor>x\<rfloor> < n" by (simp add: floor_less_iff)
    with rhe_cases[of x] show ?thesis by auto
  qed
qed

lemma rhe_gt_odd:
  assumes "odd n"
  shows "n < round_half_even x \<longleftrightarrow> of_int n + 1 / 2 \<le> x"
proof
  assume gt: "n < round_half_even x"
  show "of_int n + 1 / 2 \<le> x"
  proof (rule ccontr)
    assume "\<not> of_int n + 1 / 2 \<le> x"
    then have lt: "x < of_int n + 1 / 2" by simp
    have "\<lfloor>x\<rfloor> \<le> n" using lt by (simp add: floor_le_iff)
    moreover have "\<lfloor>x\<rfloor> = n \<Longrightarrow> round_half_even x = n"
      using lt by (simp add: round_half_even_def Let_def)
    ultimately show False using gt rhe_cases[of x] by auto
  qed
next
  assume ge: "of_int n + 1 / 2 \<le> x"
  then have fl: "n \<le> \<lfloor>x\<rfloor>" by (simp add: le_floor_iff)
  show "n < round_half_even x"
  proof (cases "\<lfloor>x\<rfloor> = n")
    case True
    then have "1 / 2 \<le> x - of_int \<lfloor>x\<rfloor>" using ge by simp
    then show ?thesis using True assms by (auto simp: round_half_even_def Let_def)
  next
    case False
    with fl have "n < \<lfloor>x\<rfloor>" by simp
    with rhe_cases[of x] show ?thesis by auto
  qed
qed

lemma binade_bounds:
  assumes "0 < x"
  shows "2 powi binade x \<le> x \<and> x < 2 powi (binade x + 1)"
proof (cases "1 \<le> x")
  case True
  let ?n = "\<lfloor>x\<rfloor>"
  have n: "0 < ?n" using True by simp
  from bitlen_bounds[OF n] have b: "2 ^ nat (bitlen ?n - 1) \<le> ?n" "?n < 2 ^ nat (bitlen ?n)" by auto
  have L: "1 \<le> bitlen ?n" using n by (simp add: bitlen_alt_def)
  have "(2::rat) powi (bitlen ?n - 1) = of_int (2 ^ nat (bitlen ?n - 1))"
    using L by (simp add: power_int_def)
  also have "\<dots> \<le> of_int ?n" using b(1) by (simp only: of_int_le_iff)
  also have "\<dots> \<le> x" by simp
  finally have 1: "2 powi (bitlen ?n - 1) \<le> x" .
  have "?n + 1 \<le> 2 ^ nat (bitlen ?n)" using b(2) by simp
  then have "(of_int (?n + 1) :: rat) \<le> of_int (2 ^ nat (bitlen ?n))" by (simp only: of_int_le_iff)
  moreover have "x < of_int (?n + 1)" by simp linarith
  moreover have "(2::rat) powi (bitlen ?n) = of_int (2 ^ nat (bitlen ?n))"
    using L by (simp add: power_int_def)
  ultimately have 2: "x < 2 powi (bitlen ?n)" by simp
  from 1 2 True show ?thesis by (simp add: binade_def)
next
  case False
  then have x1: "x < 1" by simp
  let ?y = "1 / x"
  let ?k = "\<lceil>?y\<rceil> - 1"
  have y1: "1 < ?y" using assms x1 by simp
  have k: "0 < ?k" using y1 by (simp add: less_ceiling_iff)
  from bitlen_bounds[OF k] have b: "2 ^ nat (bitlen ?k - 1) \<le> ?k" "?k < 2 ^ nat (bitlen ?k)" by auto
  have L: "1 \<le> bitlen ?k" using k by (simp add: bitlen_alt_def)
  have yk: "of_int ?k < ?y" "?y \<le> of_int ?k + 1"
    by (simp_all add: ceiling_correct)
  have "?y \<le> of_int (?k + 1)" using yk(2) by simp
  also have "(of_int (?k + 1) :: rat) \<le> of_int (2 ^ nat (bitlen ?k))"
    using b(2) by (simp only: of_int_le_iff)
  finally have yup: "?y \<le> 2 ^ nat (bitlen ?k)" by simp
  have "(of_int (2 ^ nat (bitlen ?k - 1)) :: rat) \<le> of_int ?k" using b(1) by (simp only: of_int_le_iff)
  with yk(1) have ylo: "2 ^ nat (bitlen ?k - 1) < ?y" by simp
  have p1: "(2::rat) powi (- bitlen ?k) = 1 / 2 ^ nat (bitlen ?k)"
    using L by (simp add: power_int_def field_simps power_inverse)
  have p2: "(2::rat) powi (- bitlen ?k + 1) = 1 / 2 ^ nat (bitlen ?k - 1)"
    using L by (simp add: power_int_def field_simps power_inverse nat_diff_distrib)
  have 1: "2 powi (- bitlen ?k) \<le> x"
    unfolding p1 using yup assms by (simp add: field_simps)
  have 2: "x < 2 powi (- bitlen ?k + 1)"
    unfolding p2 using ylo assms by (simp add: field_simps)
  from 1 2 False show ?thesis by (simp add: binade_def)
qed


lemma pow2_less_iff: "(2::rat) powi m < 2 powi n \<longleftrightarrow> m < n"
proof
  assume lt: "(2::rat) powi m < 2 powi n"
  show "m < n"
  proof (rule ccontr)
    assume "\<not> m < n"
    then have "n \<le> m" by simp
    then have "(2::rat) powi n \<le> 2 powi m" by (intro power_int_increasing) auto
    with lt show False by simp
  qed
next
  assume "m < n"
  then show "(2::rat) powi m < 2 powi n" by (intro power_int_strict_increasing) auto
qed

lemma pow2_le_iff: "(2::rat) powi m \<le> 2 powi n \<longleftrightarrow> m \<le> n"
  using pow2_less_iff[of n m] by (auto simp: not_less[symmetric])

lemma pow2_split:
  "(2::rat) powi (e - 52) * 2 powi 52 = 2 powi e"
  "(2::rat) powi (e - 52) * 2 powi 53 = 2 powi (e + 1)"
proof -
  have "(2::rat) powi (e - 52 + 52) = 2 powi (e - 52) * 2 powi 52"
    by (rule power_int_add) simp
  then show "(2::rat) powi (e - 52) * 2 powi 52 = 2 powi e" by simp
  have "(2::rat) powi (e - 52 + 53) = 2 powi (e - 52) * 2 powi 53"
    by (rule power_int_add) simp
  moreover have "e - 52 + 53 = e + 1" by simp
  ultimately show "(2::rat) powi (e - 52) * 2 powi 53 = 2 powi (e + 1)" by (simp only:)
qed

lemma scaled_ge:
  assumes "0 < u" and "u * of_int n \<le> x"
  shows "u * of_int n \<le> of_int (round_half_even (x / u)) * u"
proof -
  have "of_int n \<le> x / u" using assms by (simp add: field_simps)
  then have "n \<le> round_half_even (x / u)" by (rule rhe_ge_int)
  then have "(of_int n :: rat) \<le> of_int (round_half_even (x / u))" by (simp only: of_int_le_iff)
  then have "of_int n * u \<le> of_int (round_half_even (x / u)) * u"
    using assms(1) by (simp only: mult_le_cancel_right_pos)
  then show ?thesis by (simp only: mult.commute)
qed

lemma scaled_le:
  assumes "0 < u" and "x \<le> u * of_int n"
  shows "of_int (round_half_even (x / u)) * u \<le> u * of_int n"
proof -
  have "x / u \<le> of_int n" using assms by (simp add: field_simps)
  then have "round_half_even (x / u) \<le> n" by (rule rhe_le_int)
  then have "(of_int (round_half_even (x / u)) :: rat) \<le> of_int n" by (simp only: of_int_le_iff)
  then have "of_int (round_half_even (x / u)) * u \<le> of_int n * u"
    using assms(1) by (simp only: mult_le_cancel_right_pos)
  then show ?thesis by (simp only: mult.commute)
qed

lemma of_int_pow2: "(of_int (2 ^ k) :: rat) = 2 powi int k"
  by simp

lemma round_positive_ge:
  assumes "0 < x" and "- 1022 \<le> binade x"
  shows "2 powi binade x \<le> round_positive x"
proof -
  let ?e = "binade x"
  let ?ulp = "(2::rat) powi (?e - 52)"
  have u: "0 < ?ulp" by simp
  have s: "?ulp * of_int (2 ^ 52) = 2 powi ?e"
    unfolding of_int_pow2 using pow2_split(1)[of ?e] by simp
  have "?ulp * of_int (2 ^ 52) \<le> x"
    unfolding s using binade_bounds[OF assms(1)] by simp
  from scaled_ge[OF u this] have "2 powi ?e \<le> of_int (round_half_even (x / ?ulp)) * ?ulp"
    unfolding s .
  moreover have "max ?e (- 1022) = ?e" using assms(2) by simp
  ultimately show ?thesis
    unfolding round_positive_def Let_def by (simp only:)
qed

lemma round_positive_le:
  assumes "0 < x"
  shows "round_positive x \<le> 2 powi (max (binade x) (- 1022) + 1)"
proof -
  let ?e = "max (binade x) (- 1022)"
  let ?ulp = "(2::rat) powi (?e - 52)"
  have u: "0 < ?ulp" by simp
  have s: "?ulp * of_int (2 ^ 53) = 2 powi (?e + 1)"
    unfolding of_int_pow2 using pow2_split(2)[of ?e] by simp
  have "x < 2 powi (binade x + 1)" using binade_bounds[OF assms] by simp
  also have "\<dots> \<le> 2 powi (?e + 1)" by (simp add: pow2_le_iff)
  finally have "x \<le> ?ulp * of_int (2 ^ 53)"
    unfolding s by simp
  from scaled_le[OF u this] show ?thesis
    unfolding s round_positive_def Let_def .
qed

lemma round_positive_nonneg: "0 \<le> x \<Longrightarrow> 0 \<le> round_positive x"
proof -
  assume "0 \<le> x"
  then have "0 \<le> round_half_even (x / 2 powi (max (binade x) (- 1022) - 52))"
    by (intro rhe_ge_int) simp
  then show ?thesis by (simp add: round_positive_def Let_def)
qed

lemma float_0_01_eq: "float_0_01 = 5764607523034235 / 2 ^ 59"
  by code_simp


lemma round_small:
  assumes "0 < x" and "x < 2 powi k" and "- 1022 < k"
  shows "round_positive x \<le> 2 powi k"
proof -
  have "(2::rat) powi binade x \<le> x" using binade_bounds[OF assms(1)] by simp
  also note assms(2)
  finally have "binade x < k" by (simp only: pow2_less_iff)
  with assms(3) have "max (binade x) (- 1022) + 1 \<le> k" by simp
  then have "(2::rat) powi (max (binade x) (- 1022) + 1) \<le> 2 powi k"
    by (simp only: pow2_le_iff)
  with round_positive_le[OF assms(1)] show ?thesis by simp
qed

lemma round_large:
  assumes "2 powi k \<le> x" and "- 1022 \<le> k"
  shows "2 powi k \<le> round_positive x"
proof -
  have "(0::rat) < 2 powi k" by simp
  with assms(1) have x: "0 < x" by linarith
  note assms(1)
  also have "x < 2 powi (binade x + 1)" using binade_bounds[OF x] by simp
  finally have "k < binade x + 1" by (simp only: pow2_less_iff)
  then have b: "k \<le> binade x" by simp
  then have "(2::rat) powi k \<le> 2 powi binade x" by (simp only: pow2_le_iff)
  also have "\<dots> \<le> round_positive x"
    using b assms(2) by (intro round_positive_ge[OF x]) simp
  finally show ?thesis .
qed

lemma binade_eq:
  assumes "2 powi k \<le> x" and "x < 2 powi (k + 1)"
  shows "binade x = k"
proof -
  have "(0::rat) < 2 powi k" by simp
  with assms(1) have x: "0 < x" by linarith
  have "(2::rat) powi binade x \<le> x" using binade_bounds[OF x] by simp
  also note assms(2)
  finally have b1: "binade x < k + 1" by (simp only: pow2_less_iff)
  note assms(1)
  also have "x < 2 powi (binade x + 1)" using binade_bounds[OF x] by simp
  finally have b2: "k < binade x + 1" by (simp only: pow2_less_iff)
  from b1 b2 show ?thesis by simp
qed

lemma float_gt_0_01_iff:
  "float_0_01 < round_binary64 x \<longleftrightarrow> 11529215046068471 / 2 ^ 60 \<le> x"
proof -
  have p7: "(2::rat) powi (- 7) = 1 / 128" and p6: "(2::rat) powi (- 6) = 1 / 64"
    by (simp_all add: power_int_minus_divide)
  consider "x \<le> 0" | "0 < x" "x < 1 / 128" | "1 / 128 \<le> x" "x < 1 / 64" | "1 / 64 \<le> x"
    by linarith
  then show ?thesis
  proof cases
    case 1
    then have "round_binary64 x \<le> 0"
      using round_positive_nonneg[of "- x"] by (auto simp: round_binary64_def)
    with 1 show ?thesis by (simp add: float_0_01_eq)
  next
    case 2
    have "round_positive x \<le> 2 powi (- 7)"
      using 2 by (intro round_small) (simp_all add: p7)
    then have "round_positive x \<le> 1 / 128" by (simp only: p7)
    with 2 show ?thesis by (simp add: float_0_01_eq round_binary64_def)
  next
    case 3
    have x: "0 < x" using 3(1) by simp
    have b: "binade x = - 7"
      using 3 by (intro binade_eq) (simp_all add: p7 p6)
    have u: "(2::rat) powi (- 59) = 1 / 2 ^ 59" by (simp add: power_int_minus_divide)
    have "round_positive x = of_int (round_half_even (x / 2 powi (- 59))) * 2 powi (- 59)"
      unfolding round_positive_def Let_def b by simp
    then have r: "round_binary64 x = of_int (round_half_even (x * 2 ^ 59)) / 2 ^ 59"
      using x unfolding u by (simp add: round_binary64_def)
    have "float_0_01 < round_binary64 x \<longleftrightarrow>
        (of_int 5764607523034235 :: rat) < of_int (round_half_even (x * 2 ^ 59))"
      unfolding r float_0_01_eq by (simp add: divide_less_cancel)
    also have "\<dots> \<longleftrightarrow> 5764607523034235 < round_half_even (x * 2 ^ 59)"
      by (simp only: of_int_less_iff)
    also have "\<dots> \<longleftrightarrow> of_int 5764607523034235 + 1 / 2 \<le> x * 2 ^ 59"
      by (rule rhe_gt_odd) simp
    also have "\<dots> \<longleftrightarrow> 11529215046068471 / 2 ^ 60 \<le> x"
      by (simp add: field_simps)
    finally show ?thesis .
  next
    case 4
    have x: "0 < x" using 4 by simp
    have "(2::rat) powi (- 6) \<le> round_positive x"
      using 4 by (intro round_large) (simp_all add: p6)
    then have "1 / 64 \<le> round_positive x" by (simp only: p6)
    with 4 x show ?thesis by (simp add: float_0_01_eq round_binary64_def)
  qed
qed

lemma round_binary64_bound:
  assumes "\<bar>x\<bar> < 2 ^ 64"
  shows "\<bar>round_binary64 x\<bar> \<le> 2 ^ 64"
proof -
  have p: "(2::rat) powi 64 = 2 ^ 64" by simp
  have *: "round_positive y \<le> 2 ^ 64" if "0 < y" "y < 2 ^ 64" for y
  proof -
    have "round_positive y \<le> 2 powi 64"
      using that by (intro round_small) simp_all
    then show ?thesis by simp
  qed
  consider "x = 0" | "x < 0" | "0 < x" by linarith
  then show ?thesis
  proof cases
    case 1
    then show ?thesis by (simp add: round_binary64_def)
  next
    case 2
    with assms *[of "- x"] round_positive_nonneg[of "- x"] show ?thesis
      by (simp add: round_binary64_def)
  next
    case 3
    with assms *[of x] round_positive_nonneg[of x] show ?thesis
      by (simp add: round_binary64_def)
  qed
qed

section \<open>Runs of the statements\<close>

lemma andthen_cases:
  assumes "andthen m f s = (r, s')"
  obtains (failed) e where "m s = (Inl e, s')" "r = Inl e"
        | (continued) x s1 where "m s = (Inr x, s1)" "f x s1 = (r, s')"
  using assms by (auto simp: andthen_def split: prod.splits sum.splits)

lemma lift_eq: "lift x s = (r, s') \<longleftrightarrow> r = x \<and> s' = s"
  by (auto simp: lift_def)

lemma ok_eq: "ok x s = (r, s') \<longleftrightarrow> r = Inr x \<and> s' = s"
  by (auto simp: ok_def)

lemma raise_eq: "raise e s = (r, s') \<longleftrightarrow> r = Inl e \<and> s' = s"
  by (auto simp: raise_def)

lemma reading_eq:
  "reading f ev s = (r, s') \<longleftrightarrow> r = f (world s) \<and> s' = s\<lparr>calls := calls s @ [ev r]\<rparr>"
  by (auto simp: reading_def Let_def)

lemma writing_eq:
  "writing f ev s = (r, s') \<longleftrightarrow>
     (\<exists>w'. f (world s) = (r, w') \<and> s' = \<lparr>world = w', calls = calls s @ [ev r]\<rparr>)"
  by (auto simp: writing_def split: prod.splits)

lemma isfile_eq:
  "call_os_path_isfile lib p s = (r, s') \<longleftrightarrow>
     r = Inr (os_path_isfile lib (world s) p) \<and>
     s' = s\<lparr>calls := calls s @ [Call_os_path_isfile p (os_path_isfile lib (world s) p)]\<rparr>"
  by (auto simp: call_os_path_isfile_def Let_def)

lemma new_calls_append: "calls s' = calls s @ cs \<Longrightarrow> new_calls s s' = cs"
  by (simp add: new_calls_def)

lemma copy_listed_calls:
  "copy_listed lib src dst names s = (r, s') \<Longrightarrow>
   \<exists>cs. calls s' = calls s @ cs \<and> (\<forall>c \<in> set cs. stage_of c = Sidecar_Copier)"
proof (induction names arbitrary: s)
  case Nil
  then show ?case by (simp add: ok_eq)
next
  case (Cons name names)
  let ?p = "os_path_join src name"
  let ?b = "os_path_isfile lib (world s) ?p"
  define s1 where "s1 = s\<lparr>calls := calls s @ [Call_os_path_isfile ?p ?b]\<rparr>"
  from Cons.prems
  have "andthen (if ?b \<and> \<not> (str_endswith name ''.bin'' \<or> str_endswith name ''.py'')
                 then call_shutil_copy lib ?p dst else ok ())
          (\<lambda>_. copy_listed lib src dst names) s1 = (r, s')"
    by (simp add: andthen_def call_os_path_isfile_def Let_def s1_def)
  then show ?case
  proof (cases rule: andthen_cases)
    case (failed e)
    then show ?thesis
      by (auto simp: s1_def ok_eq call_shutil_copy_def writing_eq split: if_splits)
  next
    case (continued x s2)
    from Cons.IH[OF continued(2)] obtain cs
      where cs: "calls s' = calls s2 @ cs" "\<forall>c \<in> set cs. stage_of c = Sidecar_Copier"
      by blast
    with continued(1) show ?thesis
      by (auto simp: s1_def ok_eq call_shutil_copy_def writing_eq split: if_splits)
  qed
qed

lemma copy_remaining_files_calls:
  assumes "copy_remaining_files lib src dst s = (r, s')"
  shows "\<exists>cs. calls s' = calls s @ cs \<and> cs \<noteq> [] \<and> (\<forall>c \<in> set cs. stage_of c = Sidecar_Copier)"
  using assms unfolding copy_remaining_files_def
proof (cases rule: andthen_cases)
  case (failed e)
  then show ?thesis by (auto simp: call_os_listdir_def reading_eq)
next
  case (continued x s1)
  from copy_listed_calls[OF continued(2)] continued(1) show ?thesis
    by (auto simp: call_os_listdir_def reading_eq)
qed

lemma check_file_size_eq:
  "check_file_size lib sf pt s =
     (case os_stat_st_size lib (world s) sf of
        Inl e \<Rightarrow> (Inl e, s\<lparr>calls := calls s @ [Call_os_stat sf (Inl e)]\<rparr>)
      | Inr a \<Rightarrow>
          (case os_stat_st_size lib (world s) pt of
             Inl e \<Rightarrow> (Inl e, s\<lparr>calls := calls s @ [Call_os_stat sf (Inr a), Call_os_stat pt (Inl e)]\<rparr>)
           | Inr b \<Rightarrow>
               (case py_truediv (a - b) b of
                  Inl e \<Rightarrow> Inl e
                | Inr ratio \<Rightarrow>
                    if float_0_01 < ratio then Inl (RuntimeError (size_message sf a pt b))
                    else Inr (),
                s\<lparr>calls := calls s @ [Call_os_stat sf (Inr a), Call_os_stat pt (Inr b)]\<rparr>)))"
  by (simp add: check_file_size_def andthen_def call_os_stat_def reading_def Let_def ok_def raise_def
           lift_def split: sum.splits)

lemma py_truediv_Inr:
  "py_truediv a b = Inr ratio \<Longrightarrow> b \<noteq> 0 \<and> ratio = round_binary64 (of_int a / of_int b)"
  by (auto simp: py_truediv_def Let_def split: if_splits)

lemma check_file_size_calls:
  assumes "check_file_size lib sf pt s = (r, s')"
  shows "world s' = world s \<and>
    ((\<exists>e sz. r = Inl e \<and> calls s' = calls s @ sz \<and> (\<forall>c \<in> set sz. stage_of c = Size_Drift_Check)) \<or>
     (\<exists>a b. r = Inr () \<and> calls s' = calls s @ [Call_os_stat sf (Inr a), Call_os_stat pt (Inr b)] \<and>
        b \<noteq> 0 \<and> (of_int (a - b) :: rat) / of_int b < 11529215046068471 / 2 ^ 60))"
proof (cases "os_stat_st_size lib (world s) sf")
  case (Inl e)
  with assms show ?thesis unfolding check_file_size_eq by auto
next
  case sf: (Inr a)
  show ?thesis
  proof (cases "os_stat_st_size lib (world s) pt")
    case (Inl e)
    with assms sf show ?thesis unfolding check_file_size_eq by auto
  next
    case pt: (Inr b)
    show ?thesis
    proof (cases "py_truediv (a - b) b")
      case (Inl e)
      with assms sf pt show ?thesis unfolding check_file_size_eq by auto
    next
      case (Inr ratio)
      from py_truediv_Inr[OF Inr]
      have b: "b \<noteq> 0" and ratio: "ratio = round_binary64 (of_int (a - b) / of_int b)" by simp_all
      show ?thesis
      proof (cases "float_0_01 < ratio")
        case True
        with assms sf pt Inr show ?thesis unfolding check_file_size_eq by auto
      next
        case False
        then have "(of_int (a - b) :: rat) / of_int b < 11529215046068471 / 2 ^ 60"
          unfolding ratio float_gt_0_01_iff by simp
        with False assms sf pt Inr b show ?thesis unfolding check_file_size_eq by auto
      qed
    qed
  qed
qed

lemma convert_file_cases:
  fixes lib :: "('w, 't) library"
  assumes run: "convert_file lib pt sf c s = (r, s')"
  obtains
    (load_failed) e where
      "r = Inl e" "new_calls s s' = [Call_torch_load pt (Inl e)]"
  | (select_failed) ckpt e where
      "select_state_dict ckpt = Inl e"
      "r = Inl e" "new_calls s s' = [Call_torch_load pt (Inr ckpt)]"
  | (resolve_failed) ckpt loaded e where
      "select_state_dict ckpt = Inr loaded" "resolve_aliases (data_ptr lib) loaded = Inl e"
      "r = Inl e" "new_calls s s' = [Call_torch_load pt (Inr ckpt)]"
  | (makedirs_failed) ckpt loaded kept e where
      "select_state_dict ckpt = Inr loaded" "resolve_aliases (data_ptr lib) loaded = Inr kept"
      "r = Inl e"
      "new_calls s s' = [Call_torch_load pt (Inr ckpt), Call_os_makedirs (os_path_dirname sf) (Inl e)]"
  | (save_failed) ckpt loaded kept e where
      "select_state_dict ckpt = Inr loaded" "resolve_aliases (data_ptr lib) loaded = Inr kept"
      "r = Inl e"
      "new_calls s s' = [Call_torch_load pt (Inr ckpt), Call_os_makedirs (os_path_dirname sf) (Inr ()),
         Call_save_file (normalize lib kept) sf [(''format'', ''pt'')] (Inl e)]"
  | (size_failed) ckpt loaded kept e sz where
      "select_state_dict ckpt = Inr loaded" "resolve_aliases (data_ptr lib) loaded = Inr kept"
      "r = Inl e"
      "new_calls s s' = [Call_torch_load pt (Inr ckpt), Call_os_makedirs (os_path_dirname sf) (Inr ()),
         Call_save_file (normalize lib kept) sf [(''format'', ''pt'')] (Inr ())] @ sz"
      "\<forall>c \<in> set sz. stage_of c = Size_Drift_Check"
  | (copy_failed) ckpt loaded kept a b cs e where
      "select_state_dict ckpt = Inr loaded" "resolve_aliases (data_ptr lib) loaded = Inr kept"
      "r = Inl e"
      "new_calls s s' = [Call_torch_load pt (Inr ckpt), Call_os_makedirs (os_path_dirname sf) (Inr ()),
         Call_save_file (normalize lib kept) sf [(''format'', ''pt'')] (Inr ()),
         Call_os_stat sf (Inr a), Call_os_stat pt (Inr b)] @ cs"
      "b \<noteq> 0" "(of_int (a - b) :: rat) / of_int b < 11529215046068471 / 2 ^ 60"
      "\<forall>c \<in> set cs. stage_of c = Sidecar_Copier"
  | (reloaded) ckpt loaded kept a b cs rl where
      "select_state_dict ckpt = Inr loaded" "resolve_aliases (data_ptr lib) loaded = Inr kept"
      "new_calls s s' = [Call_torch_load pt (Inr ckpt), Call_os_makedirs (os_path_dirname sf) (Inr ()),
         Call_save_file (normalize lib kept) sf [(''format'', ''pt'')] (Inr ()),
         Call_os_stat sf (Inr a), Call_os_stat pt (Inr b)] @ cs @ [Call_load_file sf rl]"
      "b \<noteq> 0" "(of_int (a - b) :: rat) / of_int b < 11529215046068471 / 2 ^ 60"
      "\<forall>c \<in> set cs. stage_of c = Sidecar_Copier" "(cs = []) = (\<not> c)"
      "r = (case rl of Inl e \<Rightarrow> Inl e | Inr reloaded \<Rightarrow> compare_reloaded lib (normalize lib kept) reloaded)"
proof -
  let ?dd = "os_path_dirname sf"
  from run show thesis unfolding convert_file_def Let_def
  proof (cases rule: andthen_cases)
    case (failed e)
    then show thesis
      by (intro load_failed[of e]) (auto simp: call_torch_load_def reading_eq new_calls_def)
  next
    case (continued ckpt s1)
    from continued(1) have s1: "calls s1 = calls s @ [Call_torch_load pt (Inr ckpt)]"
      by (auto simp: call_torch_load_def reading_eq)
    from continued(2) show thesis
    proof (cases rule: andthen_cases)
      case (failed e)
      then show thesis using s1
        by (intro select_failed[of ckpt e]) (auto simp: lift_eq new_calls_def)
    next
      case (continued loaded s2)
      from continued(1) have s2: "s2 = s1" "select_state_dict ckpt = Inr loaded"
        by (auto simp: lift_eq)
      from continued(2) show thesis
      proof (cases rule: andthen_cases)
        case (failed e)
        then show thesis using s1 s2
          by (intro resolve_failed[of ckpt loaded e]) (auto simp: lift_eq new_calls_def)
      next
        case (continued kept s3)
        from continued(1) have s3: "s3 = s1" "resolve_aliases (data_ptr lib) loaded = Inr kept"
          using s2 by (auto simp: lift_eq)
        from continued(2) show thesis
        proof (cases rule: andthen_cases)
          case (failed e)
          then show thesis using s1 s3
            by (intro makedirs_failed[OF s2(2) s3(2), of e])
               (auto simp: call_os_makedirs_def writing_eq new_calls_def)
        next
          case (continued u4 s4)
          from continued(1) have s4: "calls s4 = calls s @ [Call_torch_load pt (Inr ckpt), Call_os_makedirs ?dd (Inr ())]"
            using s1 s3 by (auto simp: call_os_makedirs_def writing_eq)
          from continued(2) show thesis
          proof (cases rule: andthen_cases)
            case (failed e)
            then show thesis using s4
              by (intro save_failed[OF s2(2) s3(2), of e])
                 (auto simp: call_save_file_def writing_eq new_calls_def)
          next
            case (continued u5 s5)
            from continued(1) have s5: "calls s5 = calls s @ [Call_torch_load pt (Inr ckpt), Call_os_makedirs ?dd (Inr ()),
                Call_save_file (normalize lib kept) sf [(''format'', ''pt'')] (Inr ())]"
              using s4 by (auto simp: call_save_file_def writing_eq)
            from continued(2) show thesis
            proof (cases rule: andthen_cases)
              case (failed e)
              from check_file_size_calls[OF failed(1)] obtain sz
                where "calls s' = calls s5 @ sz" "\<forall>c \<in> set sz. stage_of c = Size_Drift_Check"
                by auto
              then show thesis using s5 failed(2)
                by (intro size_failed[OF s2(2) s3(2), of e sz]) (auto simp: new_calls_def)
            next
              case (continued u6 s6)
              from check_file_size_calls[OF continued(1)] obtain a b
                where s6: "calls s6 = calls s5 @ [Call_os_stat sf (Inr a), Call_os_stat pt (Inr b)]"
                  and ab: "b \<noteq> 0" "(of_int (a - b) :: rat) / of_int b < 11529215046068471 / 2 ^ 60"
                by auto
              from continued(2) show thesis
              proof (cases rule: andthen_cases)
                case (failed e)
                have "\<exists>cs. calls s' = calls s6 @ cs \<and> (\<forall>c \<in> set cs. stage_of c = Sidecar_Copier)"
                proof (cases c)
                  case True
                  with failed(1) copy_remaining_files_calls[of lib _ _ s6 "Inl e" s']
                  show ?thesis by fastforce
                next
                  case False
                  with failed(1) show ?thesis by (simp add: ok_eq)
                qed
                then obtain cs where "calls s' = calls s6 @ cs" "\<forall>c \<in> set cs. stage_of c = Sidecar_Copier"
                  by blast
                then show thesis using s5 s6 ab failed(2)
                  by (intro copy_failed[OF s2(2) s3(2), of e a b cs]) (auto simp: new_calls_def)
              next
                case (continued u7 s7)
                have "\<exists>cs. calls s7 = calls s6 @ cs \<and> (\<forall>c \<in> set cs. stage_of c = Sidecar_Copier) \<and> ((cs = []) = (\<not> c))"
                proof (cases c)
                  case True
                  with continued(1) copy_remaining_files_calls[of lib _ _ s6 "Inr u7" s7]
                  show ?thesis by fastforce
                next
                  case False
                  with continued(1) show ?thesis by (simp add: ok_eq)
                qed
                then obtain cs where cs: "calls s7 = calls s6 @ cs" "\<forall>c \<in> set cs. stage_of c = Sidecar_Copier"
                  "(cs = []) = (\<not> c)"
                  by blast
                from continued(2) show thesis
                proof (cases rule: andthen_cases)
                  case (failed e)
                  from failed(1) have "calls s' = calls s7 @ [Call_load_file sf (Inl e)]"
                    by (auto simp: call_load_file_def reading_eq)
                  then show thesis using s5 s6 ab cs failed(2)
                    by (intro reloaded[OF s2(2) s3(2), of a b cs "Inl e"])
                       (auto simp: new_calls_def)
                next
                  case (continued rl s8)
                  from continued(1) have "calls s8 = calls s7 @ [Call_load_file sf (Inr rl)]"
                    by (auto simp: call_load_file_def reading_eq)
                  moreover from continued(2)
                  have "s' = s8" "r = compare_reloaded lib (normalize lib kept) rl"
                    by (auto simp: lift_eq)
                  ultimately show thesis using s5 s6 ab cs
                    by (intro reloaded[OF s2(2) s3(2), of a b cs "Inr rl"])
                       (auto simp: new_calls_def)
                qed
              qed
            qed
          qed
        qed
      qed
    qed
  qed
qed


lemma foo_run_ok:
  "fst (convert_file ref_library ''/data/foo/pytorch_model.bin'' ''/data/out/model.safetensors'' True
          (start foo_world)) = Inr ()"
  by code_simp

section \<open>The size-drift check\<close>

lemma threshold_below_2_53:
  fixes n b :: int
  assumes "0 < b" and "b < 2 ^ 53"
  shows "(11529215046068471 / 2 ^ 60 \<le> (of_int n :: rat) / of_int b) = (1 / 100 < (of_int n :: rat) / of_int b)"
proof -
  have b: "(0::rat) < of_int b" using assms(1) by simp
  have "(11529215046068471 / 2 ^ 60 \<le> (of_int n :: rat) / of_int b)
      = ((of_int (11529215046068471 * b) :: rat) \<le> of_int (n * 2 ^ 60))"
    using b by (simp add: field_simps)
  also have "\<dots> = (11529215046068471 * b \<le> n * 2 ^ 60)" by (simp only: of_int_le_iff)
  finally have L: "(11529215046068471 / 2 ^ 60 \<le> (of_int n :: rat) / of_int b)
      = (11529215046068471 * b \<le> n * 2 ^ 60)" .
  have "(1 / 100 < (of_int n :: rat) / of_int b) = ((of_int b :: rat) < of_int (n * 100))"
    using b by (simp add: field_simps)
  also have "\<dots> = (b < n * 100)" by (simp only: of_int_less_iff)
  finally have R: "(1 / 100 < (of_int n :: rat) / of_int b) = (b < n * 100)" .
  have "(11529215046068471 * b \<le> n * 2 ^ 60) = (b < n * 100)"
    using assms by simp linarith
  with L R show ?thesis by simp
qed

lemma py_truediv_sizes:
  fixes a b :: int
  assumes "0 < b" and "b < 2 ^ 63" and "0 \<le> a" and "a < 2 ^ 63"
  shows "py_truediv (a - b) b = Inr (round_binary64 (of_int (a - b) / of_int b))"
proof -
  have "\<bar>a - b\<bar> < 2 ^ 63" using assms by simp
  then have "\<bar>of_int (a - b) :: rat\<bar> < 2 ^ 63"
    by (metis of_int_abs of_int_less_iff of_int_numeral of_int_power)
  moreover have "(1::rat) \<le> of_int b" using assms(1) by simp
  ultimately have "\<bar>(of_int (a - b) :: rat) / of_int b\<bar> < 2 ^ 64"
  proof -
    assume 1: "\<bar>of_int (a - b) :: rat\<bar> < 2 ^ 63" and 2: "(1::rat) \<le> of_int b"
    have "\<bar>(of_int (a - b) :: rat) / of_int b\<bar> = \<bar>of_int (a - b)\<bar> / of_int b"
      using 2 by simp
    also have "\<dots> \<le> \<bar>of_int (a - b)\<bar> / 1"
      using 2 by (intro divide_left_mono) simp_all
    also have "\<dots> = \<bar>of_int (a - b)\<bar>" by simp
    also have "\<dots> < 2 ^ 63" by (rule 1)
    also have "(2::rat) ^ 63 \<le> 2 ^ 64" by simp
    finally show ?thesis .
  qed
  from round_binary64_bound[OF this]
  have "\<bar>round_binary64 (of_int (a - b) / of_int b)\<bar> \<le> 2 ^ 64" .
  moreover have "(2::rat) ^ 64 < 2 ^ 1024" by (rule power_strict_increasing) simp_all
  ultimately have "\<not> 2 ^ 1024 \<le> \<bar>round_binary64 (of_int (a - b) / of_int b)\<bar>" by linarith
  with assms(1) show ?thesis by (simp add: py_truediv_def Let_def)
qed

text \<open>
  C10. When both sizes can be read, \<open>check_file_size\<close> raises \<^verbatim>\<open>ZeroDivisionError\<close>
  exactly when the legacy file has size 0: for size 0 it neither completes nor raises the
  size-drift error, and for a nonzero size the division is defined.
\<close>

theorem check_file_size_zero_division:
  "os_stat_st_size lib (world s) sf = Inr sf_size \<Longrightarrow>
   os_stat_st_size lib (world s) pt = Inr pt_size \<Longrightarrow>
   (fst (check_file_size lib sf pt s) = Inl ZeroDivisionError) = (pt_size = 0)"
  by (auto simp: check_file_size_eq py_truediv_def Let_def split: sum.splits if_splits)

theorem check_file_size_zero_division_witness:
  "os_stat_st_size ref_library (world (start zero_world)) ''/data/out/model.safetensors'' = Inr 8 \<and>
   os_stat_st_size ref_library (world (start zero_world)) ''/data/foo/pytorch_model.bin'' = Inr 0 \<and>
   fst (check_file_size ref_library ''/data/out/model.safetensors'' ''/data/foo/pytorch_model.bin''
          (start zero_world)) = Inl ZeroDivisionError"
proof -
  have a: "os_stat_st_size ref_library (world (start zero_world)) ''/data/out/model.safetensors'' = Inr 8"
    by code_simp
  have b: "os_stat_st_size ref_library (world (start zero_world)) ''/data/foo/pytorch_model.bin'' = Inr 0"
    by code_simp
  from check_file_size_zero_division[OF a b] a b show ?thesis by simp
qed

text \<open>
  C1, as the code has it. The bound is on the signed difference, and it is tested on
  floats. A run that completes has read, in its size-drift check, an output size \<open>a\<close>
  and a nonzero input size \<open>b\<close> for which the binary64 quotient of \<open>a - b\<close> by \<open>b\<close> is
  not above the binary64 \<^verbatim>\<open>0.01\<close>; for an input size below \<open>2 ^ 53\<close> that is
  \<open>(a - b) / b \<le> 1/100\<close>. For an input size that is positive and below \<open>2 ^ 53\<close> and an
  output size below \<open>2 ^ 63\<close> the check raises its \<^verbatim>\<open>RuntimeError\<close> exactly when
  \<open>(sf_size - pt_size) / pt_size > 1/100\<close>. An output smaller than the input passes, by
  whatever amount.
\<close>

theorem size_drift_is_signed:
  "(convert_file lib pt sf c s = (Inr (), s') \<longrightarrow>
      (\<exists>a b. filter (\<lambda>x. stage_of x = Size_Drift_Check) (new_calls s s')
                = [Call_os_stat sf (Inr a), Call_os_stat pt (Inr b)] \<and>
             b \<noteq> 0 \<and> \<not> float_0_01 < round_binary64 (of_int (a - b) / of_int b) \<and>
             (0 < b \<and> b < 2 ^ 53 \<longrightarrow> (of_int (a - b) :: rat) / of_int b \<le> 1 / 100))) \<and>
   (os_stat_st_size lib (world s) sf = Inr sf_size \<and>
    os_stat_st_size lib (world s) pt = Inr pt_size \<and>
    0 < pt_size \<and> pt_size < 2 ^ 53 \<and> 0 \<le> sf_size \<and> sf_size < 2 ^ 63 \<longrightarrow>
      fst (check_file_size lib sf pt s) =
        (if (of_int (sf_size - pt_size) :: rat) / of_int pt_size > 1 / 100
         then Inl (RuntimeError (size_message sf sf_size pt pt_size)) else Inr ()))"
proof (intro conjI impI)
  assume run: "convert_file lib pt sf c s = (Inr (), s')"
  then show "\<exists>a b. filter (\<lambda>x. stage_of x = Size_Drift_Check) (new_calls s s')
                = [Call_os_stat sf (Inr a), Call_os_stat pt (Inr b)] \<and>
             b \<noteq> 0 \<and> \<not> float_0_01 < round_binary64 (of_int (a - b) / of_int b) \<and>
             (0 < b \<and> b < 2 ^ 53 \<longrightarrow> (of_int (a - b) :: rat) / of_int b \<le> 1 / 100)"
  proof (cases rule: convert_file_cases)
    case (reloaded ckpt loaded kept a b cs rl)
    have 1: "filter (\<lambda>x. stage_of x = Size_Drift_Check) cs = []"
      using reloaded(6) by (auto simp: filter_empty_conv)
    have 2: "\<not> float_0_01 < round_binary64 (of_int (a - b) / of_int b)"
      unfolding float_gt_0_01_iff using reloaded(5) by simp
    have 3: "0 < b \<and> b < 2 ^ 53 \<longrightarrow> (of_int (a - b) :: rat) / of_int b \<le> 1 / 100"
      using threshold_below_2_53[of b "a - b"] reloaded(5) by auto
    from 1 2 3 reloaded(3,4) show ?thesis by auto
  qed simp_all
next
  assume h: "os_stat_st_size lib (world s) sf = Inr sf_size \<and>
    os_stat_st_size lib (world s) pt = Inr pt_size \<and>
    0 < pt_size \<and> pt_size < 2 ^ 53 \<and> 0 \<le> sf_size \<and> sf_size < 2 ^ 63"
  then have "pt_size < 2 ^ 63" by simp
  with h have d: "py_truediv (sf_size - pt_size) pt_size
      = Inr (round_binary64 (of_int (sf_size - pt_size) / of_int pt_size))"
    by (intro py_truediv_sizes) simp_all
  have "(float_0_01 < round_binary64 (of_int (sf_size - pt_size) / of_int pt_size))
      = (1 / 100 < (of_int (sf_size - pt_size) :: rat) / of_int pt_size)"
    unfolding float_gt_0_01_iff using h by (intro threshold_below_2_53) simp_all
  with h d show "fst (check_file_size lib sf pt s) =
        (if (of_int (sf_size - pt_size) :: rat) / of_int pt_size > 1 / 100
         then Inl (RuntimeError (size_message sf sf_size pt pt_size)) else Inr ())"
    by (simp add: check_file_size_eq)
qed

theorem size_drift_is_signed_witness:
  "fst (convert_file ref_library ''/data/foo/pytorch_model.bin'' ''/data/out/model.safetensors'' True
          (start foo_world)) = Inr () \<and>
   (\<exists>a b. filter (\<lambda>x. stage_of x = Size_Drift_Check)
            (new_calls (start foo_world)
               (snd (convert_file ref_library ''/data/foo/pytorch_model.bin''
                       ''/data/out/model.safetensors'' True (start foo_world))))
            = [Call_os_stat ''/data/out/model.safetensors'' (Inr a),
               Call_os_stat ''/data/foo/pytorch_model.bin'' (Inr b)] \<and>
          b \<noteq> 0 \<and> \<not> float_0_01 < round_binary64 (of_int (a - b) / of_int b)) \<and>
   fst (check_file_size ref_library ''/data/foo/train.py'' ''/data/foo/config.json''
          (start foo_world))
     = Inl (RuntimeError (size_message ''/data/foo/train.py'' 300 ''/data/foo/config.json'' 120))"
proof -
  let ?run = "convert_file ref_library ''/data/foo/pytorch_model.bin''
                ''/data/out/model.safetensors'' True (start foo_world)"
  have ok: "fst ?run = Inr ()" by (rule foo_run_ok)
  then have run: "?run = (Inr (), snd ?run)" by (metis prod.collapse)
  have st: "os_stat_st_size ref_library (world (start foo_world)) ''/data/foo/train.py'' = Inr 300 \<and>
            os_stat_st_size ref_library (world (start foo_world)) ''/data/foo/config.json'' = Inr 120"
    by code_simp
  note inst1 = size_drift_is_signed[of ref_library "''/data/foo/pytorch_model.bin''"
      "''/data/out/model.safetensors''" True "start foo_world" "snd ?run"]
  note inst2 = size_drift_is_signed[of ref_library "''/data/foo/config.json''"
      "''/data/foo/train.py''" True "start foo_world" "snd ?run" 300 120]
  from inst1 run have 1: "\<exists>a b. filter (\<lambda>x. stage_of x = Size_Drift_Check)
            (new_calls (start foo_world) (snd ?run))
            = [Call_os_stat ''/data/out/model.safetensors'' (Inr a),
               Call_os_stat ''/data/foo/pytorch_model.bin'' (Inr b)] \<and>
          b \<noteq> 0 \<and> \<not> float_0_01 < round_binary64 (of_int (a - b) / of_int b)" by blast
  from inst2 st have 2: "fst (check_file_size ref_library ''/data/foo/train.py'' ''/data/foo/config.json''
          (start foo_world))
     = Inl (RuntimeError (size_message ''/data/foo/train.py'' 300 ''/data/foo/config.json'' 120))"
    by simp
  from ok 1 2 show ?thesis by blast
qed

text \<open>
  C1 as stated fails: the run on \<open>foo_world\<close> completes, the container written has 20
  bytes and the legacy file 64, and \<open>|20 - 64| / 64\<close> is not within 1/100.
\<close>

theorem smaller_output_counterexample:
  "fst (convert_file ref_library ''/data/foo/pytorch_model.bin'' ''/data/out/model.safetensors'' True
          (start foo_world)) = Inr () \<and>
   os_stat_st_size ref_library
     (world (snd (convert_file ref_library ''/data/foo/pytorch_model.bin''
                    ''/data/out/model.safetensors'' True (start foo_world))))
     ''/data/out/model.safetensors'' = Inr 20 \<and>
   os_stat_st_size ref_library
     (world (snd (convert_file ref_library ''/data/foo/pytorch_model.bin''
                    ''/data/out/model.safetensors'' True (start foo_world))))
     ''/data/foo/pytorch_model.bin'' = Inr 64 \<and>
   \<not> (\<bar>of_int (20 - 64) :: rat\<bar> / of_int 64 \<le> 1 / 100)"
  by code_simp

section \<open>The order of the stages\<close>

lemma sorted_same_stage:
  "\<forall>c \<in> set cs. stage_of c = st \<Longrightarrow> sorted (map (stage_rank \<circ> stage_of) cs)"
  by (induction cs) auto

text \<open>
  C2, as the code has it. In every run of \<open>convert_file\<close>, failed or not, the stateful
  calls come in the order Loader, Container Writer, size-drift check, Sidecar Copier,
  round-trip check; what \<^verbatim>\<open>save_file\<close> is given is the normalized result of alias
  resolution on what \<^verbatim>\<open>torch.load\<close> returned, so the Alias Resolver and the Precision
  Normalizer stand between the Loader and the Container Writer; and a run that completes
  has gone through every stage (the Sidecar Copier when \<open>copy_add_data\<close> is set). The
  size-drift check is over before any sidecar file is copied; the round-trip check starts
  only after the Sidecar Copier is done.
\<close>

theorem convert_file_stage_order:
  fixes lib :: "('w, 't) library"
  assumes run: "convert_file lib pt sf c s = (r, s')"
  shows "sorted (map (stage_rank \<circ> stage_of) (new_calls s s')) \<and>
    (\<forall>ts p meta res. Call_save_file ts p meta res \<in> set (new_calls s s') \<longrightarrow>
       (\<exists>ckpt loaded kept. hd (new_calls s s') = Call_torch_load pt (Inr ckpt) \<and>
          select_state_dict ckpt = Inr loaded \<and>
          resolve_aliases (data_ptr lib) loaded = Inr kept \<and>
          ts = normalize lib kept)) \<and>
    (r = Inr () \<longrightarrow>
       set (map stage_of (new_calls s s')) =
         {Loader, Container_Writer, Size_Drift_Check, Round_Trip_Check} \<union>
         (if c then {Sidecar_Copier} else {}))"
  using run
proof (cases rule: convert_file_cases)
  case (size_failed ckpt loaded kept e sz)
  then show ?thesis
    using sorted_same_stage[OF size_failed(5)] by (auto simp: sorted_append)
next
  case (copy_failed ckpt loaded kept a b cs e)
  then show ?thesis
    using sorted_same_stage[OF copy_failed(7)] by (auto simp: sorted_append)
next
  case (reloaded ckpt loaded kept a b cs rl)
  have 1: "sorted (map (stage_rank \<circ> stage_of) (new_calls s s'))"
    using reloaded(3,6) sorted_same_stage[OF reloaded(6)] by (auto simp: sorted_append)
  have 2: "\<forall>ts p meta res. Call_save_file ts p meta res \<in> set (new_calls s s') \<longrightarrow>
       (\<exists>ckpt loaded kept. hd (new_calls s s') = Call_torch_load pt (Inr ckpt) \<and>
          select_state_dict ckpt = Inr loaded \<and>
          resolve_aliases (data_ptr lib) loaded = Inr kept \<and>
          ts = normalize lib kept)"
    using reloaded(1,2,3,6) by auto
  have 3: "r = Inr () \<longrightarrow> set (map stage_of (new_calls s s')) =
         {Loader, Container_Writer, Size_Drift_Check, Round_Trip_Check} \<union>
         (if c then {Sidecar_Copier} else {})"
  proof
    assume ok: "r = Inr ()"
    show "set (map stage_of (new_calls s s')) =
         {Loader, Container_Writer, Size_Drift_Check, Round_Trip_Check} \<union>
         (if c then {Sidecar_Copier} else {})"
    proof (cases c)
      case False
      with reloaded(3,7) show ?thesis by auto
    next
      case True
      with reloaded(7) have "cs \<noteq> []" by simp
      then have "stage_of ` set cs = {Sidecar_Copier}"
        using reloaded(6) by (cases cs) auto
      with True reloaded(3) show ?thesis by auto
    qed
  qed
  from 1 2 3 show ?thesis by blast
qed auto

theorem convert_file_stage_order_witness:
  "convert_file ref_library ''/data/foo/pytorch_model.bin'' ''/data/out/model.safetensors'' True
     (start foo_world)
   = (Inr (), snd (convert_file ref_library ''/data/foo/pytorch_model.bin''
                     ''/data/out/model.safetensors'' True (start foo_world))) \<and>
   sorted (map (stage_rank \<circ> stage_of)
     (new_calls (start foo_world)
        (snd (convert_file ref_library ''/data/foo/pytorch_model.bin''
                ''/data/out/model.safetensors'' True (start foo_world))))) \<and>
   set (map stage_of
     (new_calls (start foo_world)
        (snd (convert_file ref_library ''/data/foo/pytorch_model.bin''
                ''/data/out/model.safetensors'' True (start foo_world)))))
   = {Loader, Container_Writer, Size_Drift_Check, Round_Trip_Check, Sidecar_Copier}"
proof -
  let ?run = "convert_file ref_library ''/data/foo/pytorch_model.bin''
                ''/data/out/model.safetensors'' True (start foo_world)"
  have run: "?run = (Inr (), snd ?run)" using foo_run_ok by (metis prod.collapse)
  from convert_file_stage_order[OF run] run show ?thesis by auto
qed

text \<open>
  C2 as stated fails: on \<open>foo_world\<close> the configuration file is copied by the ninth
  call, and the container is reloaded for the round-trip check by the eleventh.
\<close>

theorem copy_before_round_trip_counterexample:
  "map stage_of
     (new_calls (start foo_world)
        (snd (convert_file ref_library ''/data/foo/pytorch_model.bin''
                ''/data/out/model.safetensors'' True (start foo_world))))
   = [Loader, Container_Writer, Container_Writer, Size_Drift_Check, Size_Drift_Check,
      Sidecar_Copier, Sidecar_Copier, Sidecar_Copier, Sidecar_Copier, Sidecar_Copier,
      Round_Trip_Check] \<and>
   new_calls (start foo_world)
        (snd (convert_file ref_library ''/data/foo/pytorch_model.bin''
                ''/data/out/model.safetensors'' True (start foo_world))) ! 8
   = Call_shutil_copy ''/data/foo/config.json'' ''/data/out'' (Inr ()) \<and>
   new_calls (start foo_world)
        (snd (convert_file ref_library ''/data/foo/pytorch_model.bin''
                ''/data/out/model.safetensors'' True (start foo_world))) ! 10
   = Call_load_file ''/data/out/model.safetensors'' (Inr foo_written)"
  by code_simp

section \<open>The Precision Normalizer\<close>

lemma normalize_names: "map fst (normalize lib kept) = map fst kept"
  by (simp add: normalize_def case_prod_beta comp_def)

lemma normalize_values:
  "(k, t) \<in> set (normalize lib kept) \<Longrightarrow> \<exists>v. (k, v) \<in> set kept \<and> t = half lib (contiguous lib v)"
  by (auto simp: normalize_def)

lemma convert_file_saved:
  fixes lib :: "('w, 't) library"
  assumes run: "convert_file lib pt sf c s = (r, s')"
    and saved: "Call_save_file ts p meta res \<in> set (new_calls s s')"
  shows "\<exists>ckpt loaded kept. hd (new_calls s s') = Call_torch_load pt (Inr ckpt) \<and>
          select_state_dict ckpt = Inr loaded \<and>
          resolve_aliases (data_ptr lib) loaded = Inr kept \<and>
          ts = normalize lib kept \<and> p = sf \<and> meta = [(''format'', ''pt'')]"
  using run
proof (cases rule: convert_file_cases)
  case (size_failed ckpt loaded kept e sz)
  then show ?thesis using saved by auto
next
  case (copy_failed ckpt loaded kept a b cs e)
  then show ?thesis using saved by auto
next
  case (reloaded ckpt loaded kept a b cs rl)
  then show ?thesis using saved by auto
qed (use saved in auto)

text \<open>
  C5. Let the library keep its contract: \<^verbatim>\<open>contiguous()\<close> returns a contiguous
  tensor, \<^verbatim>\<open>half()\<close> returns a half-precision tensor and keeps a contiguous one
  contiguous. Then whatever \<open>convert_file\<close> hands to \<^verbatim>\<open>save_file\<close> holds, under the
  names left by alias resolution, only half-precision contiguous tensors, whatever they
  were before; and once alias resolution has succeeded the next call is
  \<^verbatim>\<open>os.makedirs\<close>: the normalization in between raised nothing.
\<close>

theorem written_tensors_half_contiguous:
  fixes lib :: "('w, 't) library"
  assumes contig: "\<forall>t. is_contiguous lib (contiguous lib t)"
    and half_dtype: "\<forall>t. is_half lib (half lib t)"
    and half_layout: "\<forall>t. is_contiguous lib t \<longrightarrow> is_contiguous lib (half lib t)"
    and run: "convert_file lib pt sf c s = (r, s')"
  shows "(\<forall>ts p meta res. Call_save_file ts p meta res \<in> set (new_calls s s') \<longrightarrow>
           (\<forall>(k, t) \<in> set ts. is_half lib t \<and> is_contiguous lib t) \<and>
           (\<exists>ckpt loaded kept. hd (new_calls s s') = Call_torch_load pt (Inr ckpt) \<and>
              select_state_dict ckpt = Inr loaded \<and>
              resolve_aliases (data_ptr lib) loaded = Inr kept \<and>
              map fst ts = map fst kept)) \<and>
         (\<forall>ckpt loaded kept. hd (new_calls s s') = Call_torch_load pt (Inr ckpt) \<and>
              select_state_dict ckpt = Inr loaded \<and>
              resolve_aliases (data_ptr lib) loaded = Inr kept \<longrightarrow>
            (\<exists>res. new_calls s s' ! 1 = Call_os_makedirs (os_path_dirname sf) res))"
proof (intro conjI allI impI)
  fix ts p meta res
  assume saved: "Call_save_file ts p meta res \<in> set (new_calls s s')"
  from convert_file_saved[OF run saved] obtain ckpt loaded kept
    where *: "hd (new_calls s s') = Call_torch_load pt (Inr ckpt)"
      "select_state_dict ckpt = Inr loaded" "resolve_aliases (data_ptr lib) loaded = Inr kept"
      "ts = normalize lib kept"
    by blast
  show "\<forall>(k, t) \<in> set ts. is_half lib t \<and> is_contiguous lib t"
    using contig half_dtype half_layout unfolding *(4) by (auto dest!: normalize_values)
  show "\<exists>ckpt loaded kept. hd (new_calls s s') = Call_torch_load pt (Inr ckpt) \<and>
              select_state_dict ckpt = Inr loaded \<and>
              resolve_aliases (data_ptr lib) loaded = Inr kept \<and>
              map fst ts = map fst kept"
    using * normalize_names by blast
next
  fix ckpt loaded kept
  assume "hd (new_calls s s') = Call_torch_load pt (Inr ckpt) \<and>
              select_state_dict ckpt = Inr loaded \<and>
              resolve_aliases (data_ptr lib) loaded = Inr kept"
  with run show "\<exists>res. new_calls s s' ! 1 = Call_os_makedirs (os_path_dirname sf) res"
    by (cases rule: convert_file_cases) auto
qed

theorem written_tensors_half_contiguous_witness:
  "Call_save_file foo_written ''/data/out/model.safetensors'' [(''format'', ''pt'')] (Inr ())
     \<in> set (new_calls (start foo_world)
              (snd (convert_file ref_library ''/data/foo/pytorch_model.bin''
                      ''/data/out/model.safetensors'' True (start foo_world)))) \<and>
   list_all (\<lambda>(k, t). is_half ref_library t \<and> is_contiguous ref_library t) foo_written \<and>
   (\<exists>res. new_calls (start foo_world)
              (snd (convert_file ref_library ''/data/foo/pytorch_model.bin''
                      ''/data/out/model.safetensors'' True (start foo_world))) ! 1
          = Call_os_makedirs ''/data/out'' res)"
proof -
  let ?run = "convert_file ref_library ''/data/foo/pytorch_model.bin''
                ''/data/out/model.safetensors'' True (start foo_world)"
  have c1: "\<forall>t. is_contiguous ref_library (contiguous ref_library t)"
    by (simp add: ref_library_def ref_contiguous_def)
  have c2: "\<forall>t. is_half ref_library (half ref_library t)"
    by (simp add: ref_library_def ref_half_def)
  have c3: "\<forall>t. is_contiguous ref_library t \<longrightarrow> is_contiguous ref_library (half ref_library t)"
    by (simp add: ref_library_def ref_half_def)
  have run: "?run = (fst ?run, snd ?run)" by simp
  have saved: "Call_save_file foo_written ''/data/out/model.safetensors'' [(''format'', ''pt'')] (Inr ())
     \<in> set (new_calls (start foo_world) (snd ?run))"
    by code_simp
  have reached: "hd (new_calls (start foo_world) (snd ?run))
        = Call_torch_load ''/data/foo/pytorch_model.bin'' (Inr foo_checkpoint) \<and>
      select_state_dict foo_checkpoint
        = Inr [(''w1'', tensor_a), (''w2'', tensor_a), (''b'', tensor_b)] \<and>
      resolve_aliases (data_ptr ref_library) [(''w1'', tensor_a), (''w2'', tensor_a), (''b'', tensor_b)]
        = Inr [(''w1'', tensor_a), (''b'', tensor_b)]"
    by code_simp
  have dd: "os_path_dirname ''/data/out/model.safetensors'' = ''/data/out''" by code_simp
  note inst = written_tensors_half_contiguous[OF c1 c2 c3 run]
  from inst saved have "\<forall>(k, t) \<in> set foo_written. is_half ref_library t \<and> is_contiguous ref_library t"
    by blast
  then have 1: "list_all (\<lambda>(k, t). is_half ref_library t \<and> is_contiguous ref_library t) foo_written"
    by (simp add: list_all_iff)
  from inst reached have 2: "\<exists>res. new_calls (start foo_world) (snd ?run) ! 1
          = Call_os_makedirs ''/data/out'' res"
    unfolding dd by blast
  from saved 1 2 show ?thesis by blast
qed

section \<open>The round-trip check\<close>




section \<open>The buffer-identity key\<close>

lemma itemsize_pos: "0 < itemsize d"
  by (cases d) simp_all

text \<open>
  C4, as the library has it. The key is the address of the first element. For two
  tensors that hold elements, each inside its storage, in storages that are one or do not
  overlap, the keys are equal exactly when the tensors are views of one storage that begin
  at the same byte: equal for two names of one tensor, never equal for tensors in separate
  allocations, and different for two views of one storage that begin at different offsets.
\<close>

theorem data_ptr_is_first_element_address:
  assumes "t_elems a \<noteq> []" and "t_elems b \<noteq> []"
    and "first_element_inside a" and "first_element_inside b"
    and "t_storage a = t_storage b \<or> separate_allocations (t_storage a) (t_storage b)"
  shows "(data_ptr ref_library a = data_ptr ref_library b) =
     (shares_storage ref_library a b \<and>
      t_offset a * itemsize (t_dtype a) = t_offset b * itemsize (t_dtype b))"
proof -
  let ?oa = "t_offset a * itemsize (t_dtype a)" and ?ob = "t_offset b * itemsize (t_dtype b)"
  have pa: "data_ptr ref_library a = s_base (t_storage a) + ?oa"
    and pb: "data_ptr ref_library b = s_base (t_storage b) + ?ob"
    using assms(1,2) by (simp_all add: ref_library_def ref_data_ptr_def)
  have ia: "0 \<le> ?oa" "?oa < s_nbytes (t_storage a)"
    using assms(3) itemsize_pos[of "t_dtype a"]
    by (simp_all add: first_element_inside_def algebra_simps)
  have ib: "0 \<le> ?ob" "?ob < s_nbytes (t_storage b)"
    using assms(4) itemsize_pos[of "t_dtype b"]
    by (simp_all add: first_element_inside_def algebra_simps)
  show ?thesis
  proof (cases "t_storage a = t_storage b")
    case True
    then show ?thesis by (simp add: pa pb) (simp add: ref_library_def ref_shares_storage_def)
  next
    case False
    with assms(5) have "separate_allocations (t_storage a) (t_storage b)" by simp
    with ia ib have "s_base (t_storage a) + ?oa \<noteq> s_base (t_storage b) + ?ob"
      by (auto simp: separate_allocations_def)
    with False show ?thesis
      by (simp add: pa pb) (simp add: ref_library_def ref_shares_storage_def)
  qed
qed

theorem data_ptr_is_first_element_address_witness:
  "data_ptr ref_library view_low \<noteq> data_ptr ref_library view_high \<and>
   data_ptr ref_library tensor_a \<noteq> data_ptr ref_library tensor_b \<and>
   data_ptr ref_library tensor_a = data_ptr ref_library tensor_a"
proof -
  have v: "t_elems view_low \<noteq> []" "t_elems view_high \<noteq> []"
    "first_element_inside view_low" "first_element_inside view_high"
    "t_storage view_low = t_storage view_high \<or>
     separate_allocations (t_storage view_low) (t_storage view_high)"
    by code_simp+
  have t: "t_elems tensor_a \<noteq> []" "t_elems tensor_b \<noteq> []"
    "first_element_inside tensor_a" "first_element_inside tensor_b"
    "t_storage tensor_a = t_storage tensor_b \<or>
     separate_allocations (t_storage tensor_a) (t_storage tensor_b)"
    by code_simp+
  have o: "t_offset view_low * itemsize (t_dtype view_low)
      \<noteq> t_offset view_high * itemsize (t_dtype view_high)"
    by code_simp
  have n: "\<not> shares_storage ref_library tensor_a tensor_b" by code_simp
  from data_ptr_is_first_element_address[OF v] o
  have 1: "data_ptr ref_library view_low \<noteq> data_ptr ref_library view_high" by simp
  from data_ptr_is_first_element_address[OF t] n
  have 2: "data_ptr ref_library tensor_a \<noteq> data_ptr ref_library tensor_b" by simp
  from 1 2 show ?thesis by simp
qed

text \<open>
  C4 as stated fails in both directions: \<open>view_low\<close> and \<open>view_high\<close> are overlapping
  views of one storage with different keys, and \<open>empty_a\<close> and \<open>empty_b\<close> are allocated
  apart and have the same key.
\<close>

theorem data_ptr_counterexample:
  "shares_storage ref_library view_low view_high \<and>
   data_ptr ref_library view_low \<noteq> data_ptr ref_library view_high \<and>
   \<not> shares_storage ref_library empty_a empty_b \<and>
   data_ptr ref_library empty_a = data_ptr ref_library empty_b"
  by code_simp

text \<open>
  Two unrelated tensors without elements are taken for aliases, and the second is removed.
\<close>

lemma empty_tensors_taken_for_aliases:
  "get_shared_weights (data_ptr ref_library) [(''a'', empty_a), (''b'', empty_b)] = [[''a'', ''b'']] \<and>
   resolve_aliases (data_ptr ref_library) [(''a'', empty_a), (''b'', empty_b)] = Inr [(''a'', empty_a)]"
  by code_simp

section \<open>The entry point\<close>

text \<open>
  C7. With \<^verbatim>\<open>--dest_directory\<close> absent from the command line the namespace holds
  \<^verbatim>\<open>None\<close>, and \<^verbatim>\<open>args.dest_directory.strip()\<close> raises before a destination is
  derived: \<open>main\<close> ends with \<^verbatim>\<open>AttributeError\<close>, whatever the library and the world.
\<close>

theorem main_without_dest_directory:
  "main lib \<lparr>src_directory = Some ''/data/foo'', dest_directory = None\<rparr> s = (Inl AttributeError, s)"
  by (simp add: main_def andthen_def lift_def)

theorem main_without_dest_directory_witness:
  "main ref_library \<lparr>src_directory = Some ''/data/foo'', dest_directory = None\<rparr> (start foo_world)
     = (Inl AttributeError, start foo_world)"
  by (rule main_without_dest_directory)

text \<open>
  Only an empty (or blank) \<^verbatim>\<open>--dest_directory\<close> reaches the derivation, which then gives
  \<^verbatim>\<open>/data/foo/foo_safetensors\<close> for \<^verbatim>\<open>/data/foo\<close>.
\<close>

lemma derived_dest_directory:
  "os_path_join ''/data/foo'' (os_path_basename (os_path_normpath ''/data/foo'') @ ''_safetensors'')
     = ''/data/foo/foo_safetensors''"
  by code_simp

lemma strip_foo: "str_strip ''/data/foo'' = ''/data/foo''" "str_strip '''' = ''''"
  by code_simp+

lemma main_empty_dest_directory:
  "main lib \<lparr>src_directory = Some ''/data/foo'', dest_directory = Some ''''\<rparr> s
     = main lib \<lparr>src_directory = Some ''/data/foo'',
                  dest_directory = Some ''/data/foo/foo_safetensors''\<rparr> s"
proof -
  have "str_strip ''/data/foo/foo_safetensors'' = ''/data/foo/foo_safetensors''" by code_simp
  then show ?thesis
    by (simp add: main_def andthen_def lift_def Let_def strip_foo derived_dest_directory
          cong: if_cong prod.case_cong sum.case_cong)
qed

text \<open>
  C8. What \<open>main\<close> does, for every namespace: with both arguments given and the source
  directory listed, it raises its \<^verbatim>\<open>RuntimeError\<close> when there is no entry
  \<^verbatim>\<open>pytorch_model.bin\<close>, having made no call but the listing, and goes on into
  \<open>convert_file\<close> when there is one; with an argument absent it ends with
  \<^verbatim>\<open>AttributeError\<close> before it lists the directory, whether the entry is there or not.
\<close>

theorem main_outcomes:
  "main lib args s =
     (case src_directory args of
        None \<Rightarrow> (Inl AttributeError, s)
      | Some src \<Rightarrow>
          (case dest_directory args of
             None \<Rightarrow> (Inl AttributeError, s)
           | Some dest \<Rightarrow>
               (case os_listdir lib (world s) (str_strip src) of
                  Inl e \<Rightarrow>
                    (Inl e, s\<lparr>calls := calls s @ [Call_os_listdir (str_strip src) (Inl e)]\<rparr>)
                | Inr listing \<Rightarrow>
                    if ''pytorch_model.bin'' \<notin> set listing
                    then (Inl (RuntimeError
                            ''pytorch_model.bin file not found. Please ensure the correct source directory is specified.''),
                          s\<lparr>calls := calls s @ [Call_os_listdir (str_strip src) (Inr listing)]\<rparr>)
                    else convert_file lib (os_path_join (str_strip src) ''pytorch_model.bin'')
                           (os_path_join
                              (if str_strip dest = []
                               then os_path_join (str_strip src)
                                      (os_path_basename (os_path_normpath (str_strip src)) @ ''_safetensors'')
                               else str_strip dest)
                              ''model.safetensors'')
                           True
                           (s\<lparr>calls := calls s @ [Call_os_listdir (str_strip src) (Inr listing)]\<rparr>))))"
  by (simp add: main_def andthen_def lift_def Let_def call_os_listdir_def reading_def raise_def
           split: option.splits sum.splits)

theorem main_outcomes_witness:
  "os_listdir ref_library (world (start foo_world)) (str_strip ''/data/foo'')
     = Inr [''pytorch_model.bin'', ''config.json'', ''train.py''] \<and>
   main ref_library \<lparr>src_directory = Some ''/data/foo'', dest_directory = None\<rparr> (start foo_world)
     = (Inl AttributeError, start foo_world) \<and>
   os_listdir ref_library (world (start bare_world)) (str_strip ''/data/foo'') = Inr [''config.json''] \<and>
   main ref_library \<lparr>src_directory = Some ''/data/foo'', dest_directory = None\<rparr> (start bare_world)
     = (Inl AttributeError, start bare_world)"
proof -
  have l1: "os_listdir ref_library (world (start foo_world)) (str_strip ''/data/foo'')
     = Inr [''pytorch_model.bin'', ''config.json'', ''train.py'']"
    by code_simp
  have l2: "os_listdir ref_library (world (start bare_world)) (str_strip ''/data/foo'') = Inr [''config.json'']"
    by code_simp
  have 1: "main ref_library \<lparr>src_directory = Some ''/data/foo'', dest_directory = None\<rparr> (start foo_world)
     = (Inl AttributeError, start foo_world)"
    by (simp add: main_outcomes)
  have 2: "main ref_library \<lparr>src_directory = Some ''/data/foo'', dest_directory = None\<rparr> (start bare_world)
     = (Inl AttributeError, start bare_world)"
    by (simp add: main_outcomes)
  from l1 l2 1 2 show ?thesis by simp
qed

text \<open>With both arguments given, the two cases of the check.\<close>

lemma main_with_both_arguments:
  assumes "src_directory args = Some src" and "dest_directory args = Some dest"
    and "os_listdir lib (world s) (str_strip src) = Inr listing"
  shows "main lib args s =
     (if ''pytorch_model.bin'' \<notin> set listing
      then (Inl (RuntimeError
              ''pytorch_model.bin file not found. Please ensure the correct source directory is specified.''),
            s\<lparr>calls := calls s @ [Call_os_listdir (str_strip src) (Inr listing)]\<rparr>)
      else convert_file lib (os_path_join (str_strip src) ''pytorch_model.bin'')
             (os_path_join
                (if str_strip dest = []
                 then os_path_join (str_strip src)
                        (os_path_basename (os_path_normpath (str_strip src)) @ ''_safetensors'')
                 else str_strip dest)
                ''model.safetensors'')
             True
             (s\<lparr>calls := calls s @ [Call_os_listdir (str_strip src) (Inr listing)]\<rparr>))"
  using assms
  by (simp add: main_def andthen_def lift_def Let_def call_os_listdir_def reading_def raise_def)

end
